theory Spec2Isabelle
  imports Main
begin

section \<open>JavaScript dates\<close>

text \<open>
  The controller computes with the built-in \<^verbatim>\<open>Date\<close>: \<^verbatim>\<open>getMonth\<close>, \<^verbatim>\<open>setMonth\<close>,
  \<^verbatim>\<open>getFullYear\<close>, \<^verbatim>\<open>setFullYear\<close> and comparison of time values. A date is its time value,
  the milliseconds since 1970-01-01T00:00:00Z as an integer; \<open>None\<close> is the Invalid Date
  (time value NaN). The definitions are the abstract operations of the ECMAScript
  specification (Day, TimeWithinDay, DayFromYear, YearFromTime, MonthFromTime, DateFromTime,
  MakeDay, MakeDate, TimeClip). The local time zone of the server is taken to be UTC, so
  LocalTime and UTC are the identity.
\<close>

definition msPerDay :: int where
  "msPerDay = 86400000"

definition Day :: "int \<Rightarrow> int" where
  "Day t = t div msPerDay"

definition TimeWithinDay :: "int \<Rightarrow> int" where
  "TimeWithinDay t = t mod msPerDay"

definition InLeapYear :: "int \<Rightarrow> bool" where
  "InLeapYear y = (y mod 4 = 0 \<and> (y mod 100 \<noteq> 0 \<or> y mod 400 = 0))"

definition DaysInYear :: "int \<Rightarrow> int" where
  "DaysInYear y = (if InLeapYear y then 366 else 365)"

definition DayFromYear :: "int \<Rightarrow> int" where
  "DayFromYear y =
     365 * (y - 1970) + (y - 1969) div 4 - (y - 1901) div 100 + (y - 1601) div 400"

text \<open>
  ECMAScript defines YearFromTime as the largest year \<open>y\<close> with \<open>DayFromYear y \<le> Day t\<close>.
  \<open>YearFromDay\<close> computes it: the estimate from the mean year length of 365.2425 days
  is off by at most one year, which the two comparisons repair (lemma \<open>YearFromDay_bounds\<close>
  below proves that the result is that year).
\<close>

definition YearFromDay :: "int \<Rightarrow> int" where
  "YearFromDay d =
     (let y0 = 1970 + (400 * d) div 146097
      in if d < DayFromYear y0 then y0 - 1
         else if DayFromYear (y0 + 1) \<le> d then y0 + 1
         else y0)"

definition YearFromTime :: "int \<Rightarrow> int" where
  "YearFromTime t = YearFromDay (Day t)"

definition DayWithinYear :: "int \<Rightarrow> int" where
  "DayWithinYear t = Day t - DayFromYear (YearFromTime t)"

text \<open>The number of days of the year before month \<open>m\<close> (0 = January), in a leap year or not.\<close>

definition monthStart :: "bool \<Rightarrow> int \<Rightarrow> int" where
  "monthStart leap m =
     (let l = (if leap then 1 else 0)
      in if m = 0 then 0
         else if m = 1 then 31
         else if m = 2 then 59 + l
         else if m = 3 then 90 + l
         else if m = 4 then 120 + l
         else if m = 5 then 151 + l
         else if m = 6 then 181 + l
         else if m = 7 then 212 + l
         else if m = 8 then 243 + l
         else if m = 9 then 273 + l
         else if m = 10 then 304 + l
         else 334 + l)"

definition MonthFromTime :: "int \<Rightarrow> int" where
  "MonthFromTime t =
     (let d = DayWithinYear t; leap = InLeapYear (YearFromTime t)
      in if d < monthStart leap 1 then 0
         else if d < monthStart leap 2 then 1
         else if d < monthStart leap 3 then 2
         else if d < monthStart leap 4 then 3
         else if d < monthStart leap 5 then 4
         else if d < monthStart leap 6 then 5
         else if d < monthStart leap 7 then 6
         else if d < monthStart leap 8 then 7
         else if d < monthStart leap 9 then 8
         else if d < monthStart leap 10 then 9
         else if d < monthStart leap 11 then 10
         else 11)"

definition DateFromTime :: "int \<Rightarrow> int" where
  "DateFromTime t =
     DayWithinYear t - monthStart (InLeapYear (YearFromTime t)) (MonthFromTime t) + 1"

text \<open>
  MakeDay: months outside 0..11 carry into the year, and a day of the month beyond the
  month's length runs on into the following month.
\<close>

definition MakeDay :: "int \<Rightarrow> int \<Rightarrow> int \<Rightarrow> int" where
  "MakeDay year month date =
     (let ym = year + month div 12; mn = month mod 12
      in DayFromYear ym + monthStart (InLeapYear ym) mn + date - 1)"

definition MakeDate :: "int \<Rightarrow> int \<Rightarrow> int" where
  "MakeDate day time = day * msPerDay + time"

definition TimeClip :: "int \<Rightarrow> int option" where
  "TimeClip t = (if \<bar>t\<bar> > 8640000000000000 then None else Some t)"

definition getMonth :: "int \<Rightarrow> int" where
  "getMonth t = MonthFromTime t"

definition getFullYear :: "int \<Rightarrow> int" where
  "getFullYear t = YearFromTime t"

definition setMonth :: "int \<Rightarrow> int \<Rightarrow> int option" where
  "setMonth t m =
     TimeClip (MakeDate (MakeDay (YearFromTime t) m (DateFromTime t)) (TimeWithinDay t))"

definition setFullYear :: "int \<Rightarrow> int \<Rightarrow> int option" where
  "setFullYear t y =
     TimeClip (MakeDate (MakeDay y (MonthFromTime t) (DateFromTime t)) (TimeWithinDay t))"

subsection \<open>calculateNextPaymentDate\<close>

text \<open>
  \<^verbatim>\<open>
  function calculateNextPaymentDate(startDate: Date): Date {
      const today = new Date();
      const nextPaymentDate = new Date(startDate);
      while (nextPaymentDate <= today) {
          nextPaymentDate.setMonth(nextPaymentDate.getMonth() + 1);
      }
      return nextPaymentDate;
  }
  \<close>
  The clock reading \<open>today\<close> is a parameter. \<open>startDate\<close> is a stored lease date, hence a
  valid date. When \<^verbatim>\<open>setMonth\<close> leaves the range of time values the date becomes the
  Invalid Date, whose comparison with \<open>today\<close> is false, so the loop ends and returns it.
\<close>

definition advanceMonth :: "int \<Rightarrow> int option" where
  "advanceMonth t = setMonth t (getMonth t + 1)"

subsection \<open>Calendar arithmetic\<close>

lemma div_succ: 
  fixes x k :: int assumes "1 < k"
  shows "(x + 1) div k = x div k + (if x mod k = k - 1 then 1 else 0)"
proof (cases "x mod k = k - 1")
  case True
  have "x = k * (x div k) + x mod k" by simp
  then have "x + 1 = k * (x div k) + k" using True by linarith
  then have "x + 1 = k * (x div k + 1) + 0" by (simp add: algebra_simps)
  then have "(x + 1) div k = x div k + 1" using assms by (intro int_div_pos_eq[where r=0]) auto
  then show ?thesis using True by simp
next
  case False
  have "0 \<le> x mod k" "x mod k < k" using assms by simp_all
  then have r: "0 \<le> x mod k + 1" "x mod k + 1 < k" using False by linarith+
  have "x + 1 = k * (x div k) + (x mod k + 1)" using mult_div_mod_eq[of k x] by simp
  then have "(x + 1) div k = x div k" using r by (intro int_div_pos_eq[where r="x mod k + 1"]) auto
  then show ?thesis using False by simp
qed

lemma mod_shift:
  fixes y c k :: int assumes "1 < k" "(c + k - 1) mod k = 0"
  shows "(y - c) mod k = k - 1 \<longleftrightarrow> y mod k = 0"
proof -
  have "y mod k = ((y - c) + 1 + (c + k - 1 - k)) mod k" by simp
  also have "\<dots> = ((y - c) + 1 + (c + k - 1)) mod k" 
    by (metis add_diff_eq mod_diff_right_eq mod_self diff_zero)
  also have "\<dots> = ((y - c) mod k + 1) mod k" using assms(2)
    by (metis (no_types, opaque_lifting) add.right_neutral mod_add_eq mod_add_left_eq mod_mod_trivial)
  finally have e: "y mod k = ((y - c) mod k + 1) mod k" .
  have b: "0 \<le> (y - c) mod k" "(y - c) mod k < k" using assms by simp_all
  show ?thesis
  proof
    assume "(y - c) mod k = k - 1" then show "y mod k = 0" using e by simp
  next
    assume z: "y mod k = 0"
    show "(y - c) mod k = k - 1"
    proof (rule ccontr)
      assume "(y - c) mod k \<noteq> k - 1"
      then have "0 < (y - c) mod k + 1" "(y - c) mod k + 1 < k" using b by linarith+
      then have "((y - c) mod k + 1) mod k = (y - c) mod k + 1" by simp
      then show False using e z b by linarith
    qed
  qed
qed

lemma DayFromYear_step: "DayFromYear (y + 1) = DayFromYear y + DaysInYear y"
proof -
  have a: "(y + 1 - 1969) div 4 = (y - 1969) div 4 + (if y mod 4 = 0 then 1 else 0)"
    using div_succ[of 4 "y - 1969"] mod_shift[of 4 1969 y] by (simp add: algebra_simps)
  have b: "(y + 1 - 1901) div 100 = (y - 1901) div 100 + (if y mod 100 = 0 then 1 else 0)"
    using div_succ[of 100 "y - 1901"] mod_shift[of 100 1901 y] by (simp add: algebra_simps)
  have c: "(y + 1 - 1601) div 400 = (y - 1601) div 400 + (if y mod 400 = 0 then 1 else 0)"
    using div_succ[of 400 "y - 1601"] mod_shift[of 400 1601 y] by (simp add: algebra_simps)
  have "(100::int) dvd 400" "(4::int) dvd 100" by simp_all
  then have m: "y mod 400 = 0 \<Longrightarrow> y mod 100 = 0" "y mod 100 = 0 \<Longrightarrow> y mod 4 = 0"
    using dvd_trans[of 100 400 y] dvd_trans[of 4 100 y] by (simp_all add: mod_eq_0_iff_dvd)
  consider "y mod 400 = 0" | "y mod 400 \<noteq> 0" "y mod 100 = 0" | "y mod 100 \<noteq> 0" "y mod 4 = 0"
    | "y mod 4 \<noteq> 0" by blast
  then show ?thesis
  proof cases
    case 1
    then show ?thesis using m unfolding DayFromYear_def DaysInYear_def InLeapYear_def a b c by simp
  next
    case 2
    then show ?thesis using m unfolding DayFromYear_def DaysInYear_def InLeapYear_def a b c by simp
  next
    case 3
    then show ?thesis using m unfolding DayFromYear_def DaysInYear_def InLeapYear_def a b c by auto
  next
    case 4
    then show ?thesis using m unfolding DayFromYear_def DaysInYear_def InLeapYear_def a b c by auto
  qed
qed

lemma DayFromYear_estimate:
  "146097 * y - 287811596 \<le> 400 * DayFromYear y \<and> 400 * DayFromYear y \<le> 146097 * y - 287810501"
proof -
  define a where "a = (y - 1969) div 4"
  define b where "b = (y - 1901) div 100"
  define c where "c = (y - 1601) div 400"
  have bs: "4 * a \<le> y - 1969" "y - 1969 < 4 * a + 4"
    "100 * b \<le> y - 1901" "y - 1901 < 100 * b + 100"
    "400 * c \<le> y - 1601" "y - 1601 < 400 * c + 400"
    unfolding a_def b_def c_def by simp_all
  have e: "DayFromYear y = 365 * y - 719050 + a - b + c"
    unfolding DayFromYear_def a_def b_def c_def by simp
  show ?thesis
    using bs e by linarith
qed

lemma YearFromDay_bounds:
  "DayFromYear (YearFromDay d) \<le> d \<and> d < DayFromYear (YearFromDay d + 1)"
proof -
  define q where "q = (400 * d) div 146097"
  have b: "146097 * q \<le> 400 * d" "400 * d < 146097 * q + 146097"
    unfolding q_def by simp_all
  have B1: "400 * DayFromYear (1969 + q) \<le> 146097 * q - 145508"
    using DayFromYear_estimate[of "1969 + q"] by (simp add: distrib_left)
  have B2: "146097 * q + 291688 \<le> 400 * DayFromYear (1972 + q)"
    using DayFromYear_estimate[of "1972 + q"] by (simp add: distrib_left)
  have L: "DayFromYear (1969 + q) \<le> d" using B1 b by linarith
  have U: "d < DayFromYear (1972 + q)" using B2 b by linarith
  have s: "1970 + q - 1 = 1969 + q" "1970 + q + 1 + 1 = 1972 + q" by simp_all
  show ?thesis
    unfolding YearFromDay_def Let_def q_def[symmetric]
    using L U by (simp add: s)
qed

lemma monthStart_gap:
  "0 \<le> m \<Longrightarrow> m < 11 \<Longrightarrow> monthStart l m + 28 \<le> monthStart l (m + 1)"
proof -
  assume "0 \<le> m" "m < 11"
  then have "m = 0 \<or> m = 1 \<or> m = 2 \<or> m = 3 \<or> m = 4 \<or> m = 5 \<or> m = 6 \<or> m = 7
    \<or> m = 8 \<or> m = 9 \<or> m = 10" by presburger
  then show ?thesis by (auto simp: monthStart_def)
qed

lemma MonthFromTime_range: "0 \<le> MonthFromTime t \<and> MonthFromTime t \<le> 11"
  by (simp add: MonthFromTime_def Let_def)

lemma Day_split: "t = Day t * msPerDay + TimeWithinDay t"
  by (simp add: Day_def TimeWithinDay_def)

lemma MakeDay_next_month:
  "Day t + 28 \<le> MakeDay (YearFromTime t) (MonthFromTime t + 1) (DateFromTime t)"
proof (cases "MonthFromTime t = 11")
  case True
  have "MakeDay (YearFromTime t) 12 (DateFromTime t) =
        DayFromYear (YearFromTime t + 1) + DateFromTime t - 1"
    by (simp add: MakeDay_def monthStart_def)
  also have "\<dots> = Day t + DaysInYear (YearFromTime t)
                    - monthStart (InLeapYear (YearFromTime t)) 11"
    by (simp add: DayFromYear_step DateFromTime_def DayWithinYear_def True)
  also have "\<dots> = Day t + 31"
    by (simp add: DaysInYear_def monthStart_def)
  finally show ?thesis using True by simp
next
  case False
  then have r: "0 \<le> MonthFromTime t" "MonthFromTime t < 11"
    using MonthFromTime_range[of t] by linarith+
  then have "(MonthFromTime t + 1) div 12 = 0" "(MonthFromTime t + 1) mod 12 = MonthFromTime t + 1"
    by simp_all
  then have "MakeDay (YearFromTime t) (MonthFromTime t + 1) (DateFromTime t) =
        Day t + (monthStart (InLeapYear (YearFromTime t)) (MonthFromTime t + 1)
                 - monthStart (InLeapYear (YearFromTime t)) (MonthFromTime t))"
    by (simp add: MakeDay_def DateFromTime_def DayWithinYear_def Let_def)
  then show ?thesis using monthStart_gap[OF r, of "InLeapYear (YearFromTime t)"] by linarith
qed

lemma advanceMonth_increases:
  assumes "advanceMonth t = Some t'"
  shows "t + 28 * msPerDay \<le> t'"
proof -
  let ?d = "MakeDay (YearFromTime t) (MonthFromTime t + 1) (DateFromTime t)"
  have "t' = ?d * msPerDay + TimeWithinDay t"
    using assms by (simp add: advanceMonth_def setMonth_def getMonth_def TimeClip_def MakeDate_def split: if_splits)
  moreover have "(Day t + 28) * msPerDay \<le> ?d * msPerDay"
    using MakeDay_next_month[of t] by (simp add: msPerDay_def)
  ultimately show ?thesis using Day_split[of t] by (simp add: algebra_simps)
qed

function calculateNextPaymentDate :: "int \<Rightarrow> int \<Rightarrow> int option" where
  "calculateNextPaymentDate today nextPaymentDate =
     (if nextPaymentDate \<le> today
      then (case advanceMonth nextPaymentDate of
              None \<Rightarrow> None
            | Some d \<Rightarrow> calculateNextPaymentDate today d)
      else Some nextPaymentDate)"
  by pat_completeness auto
termination
proof (relation "measure (\<lambda>(today, d). nat (today - d + 1))")
  show "wf (measure (\<lambda>(today, d). nat (today - d + 1)))" by simp
next
  fix today nextPaymentDate d :: int
  assume "nextPaymentDate \<le> today" "advanceMonth nextPaymentDate = Some d"
  then show "((today, d), (today, nextPaymentDate)) \<in> measure (\<lambda>(today, d). nat (today - d + 1))"
    using advanceMonth_increases[of nextPaymentDate d] by (simp add: msPerDay_def)
qed

definition maxTime :: int where
  "maxTime = 8640000000000000"

fun monthsAdvanced :: "nat \<Rightarrow> int \<Rightarrow> int option" where
  "monthsAdvanced 0 t = Some t"
| "monthsAdvanced (Suc k) t =
     (case advanceMonth t of None \<Rightarrow> None | Some d \<Rightarrow> monthsAdvanced k d)"

text \<open>
  The spec's "startDate + k months": the start date with its month moved on by \<open>k\<close> in one
  call of \<^verbatim>\<open>setMonth\<close>. It is compared with the code's loop, which is \<open>monthsAdvanced\<close>.
\<close>

definition plusMonths :: "int \<Rightarrow> nat \<Rightarrow> int option" where
  "plusMonths startDate k = setMonth startDate (getMonth startDate + int k)"

lemma monthStart_gap_upper:
  "0 \<le> m \<Longrightarrow> m < 11 \<Longrightarrow> monthStart l (m + 1) \<le> monthStart l m + 31"
proof -
  assume "0 \<le> m" "m < 11"
  then have "m = 0 \<or> m = 1 \<or> m = 2 \<or> m = 3 \<or> m = 4 \<or> m = 5 \<or> m = 6 \<or> m = 7
    \<or> m = 8 \<or> m = 9 \<or> m = 10" by presburger
  then show ?thesis by (auto simp: monthStart_def)
qed

lemma MakeDay_next_month_upper:
  "MakeDay (YearFromTime t) (MonthFromTime t + 1) (DateFromTime t) \<le> Day t + 31"
proof (cases "MonthFromTime t = 11")
  case True
  have "MakeDay (YearFromTime t) 12 (DateFromTime t) =
        DayFromYear (YearFromTime t + 1) + DateFromTime t - 1"
    by (simp add: MakeDay_def monthStart_def)
  also have "\<dots> = Day t + DaysInYear (YearFromTime t)
                    - monthStart (InLeapYear (YearFromTime t)) 11"
    by (simp add: DayFromYear_step DateFromTime_def DayWithinYear_def True)
  also have "\<dots> = Day t + 31"
    by (simp add: DaysInYear_def monthStart_def)
  finally show ?thesis using True by simp
next
  case False
  then have r: "0 \<le> MonthFromTime t" "MonthFromTime t < 11"
    using MonthFromTime_range[of t] by linarith+
  then have "(MonthFromTime t + 1) div 12 = 0" "(MonthFromTime t + 1) mod 12 = MonthFromTime t + 1"
    by simp_all
  then have "MakeDay (YearFromTime t) (MonthFromTime t + 1) (DateFromTime t) =
        Day t + (monthStart (InLeapYear (YearFromTime t)) (MonthFromTime t + 1)
                 - monthStart (InLeapYear (YearFromTime t)) (MonthFromTime t))"
    by (simp add: MakeDay_def DateFromTime_def DayWithinYear_def Let_def)
  then show ?thesis using monthStart_gap_upper[OF r, of "InLeapYear (YearFromTime t)"] by linarith
qed

lemma advanceMonth_defined:
  assumes "- maxTime \<le> t" "t + 31 * msPerDay \<le> maxTime"
  shows "\<exists>t'. advanceMonth t = Some t' \<and> t' \<le> t + 31 * msPerDay"
proof -
  let ?d = "MakeDay (YearFromTime t) (MonthFromTime t + 1) (DateFromTime t)"
  let ?v = "?d * msPerDay + TimeWithinDay t"
  have "?d * msPerDay \<le> (Day t + 31) * msPerDay"
    using MakeDay_next_month_upper[of t] by (simp add: msPerDay_def)
  then have u: "?v \<le> t + 31 * msPerDay" using Day_split[of t] by (simp add: algebra_simps)
  have "(Day t + 28) * msPerDay \<le> ?d * msPerDay"
    using MakeDay_next_month[of t] by (simp add: msPerDay_def)
  then have l: "t \<le> ?v" using Day_split[of t] by (simp add: algebra_simps msPerDay_def)
  have "\<bar>?v\<bar> \<le> maxTime" using u l assms by linarith
  then have "advanceMonth t = Some ?v"
    by (simp add: advanceMonth_def setMonth_def getMonth_def TimeClip_def MakeDate_def maxTime_def)
  then show ?thesis using u by simp
qed

lemma calculateNextPaymentDate_returns:
  "- maxTime \<le> startDate \<Longrightarrow> startDate \<le> maxTime \<Longrightarrow> today + 31 * msPerDay \<le> maxTime \<Longrightarrow>
   \<exists>r. calculateNextPaymentDate today startDate = Some r"
proof (induction today startDate rule: calculateNextPaymentDate.induct)
  case (1 today t)
  show ?case
  proof (cases "t \<le> today")
    case True
    then obtain d where d: "advanceMonth t = Some d" "d \<le> t + 31 * msPerDay"
      using advanceMonth_defined[of t] 1(2,4) by auto
    have "t \<le> d" using advanceMonth_increases[OF d(1)] by (simp add: msPerDay_def)
    then have "\<exists>r. calculateNextPaymentDate today d = Some r"
      using 1(1)[OF True d(1)] 1(2,4) d(2) True by simp
    then show ?thesis using True d(1) by simp
  next
    case False
    then show ?thesis by simp
  qed
qed

lemma calculateNextPaymentDate_steps:
  "calculateNextPaymentDate today startDate = Some r \<Longrightarrow>
   \<exists>k. monthsAdvanced k startDate = Some r \<and> today < r \<and>
       (\<forall>j<k. \<exists>u. monthsAdvanced j startDate = Some u \<and> u \<le> today)"
proof (induction today startDate rule: calculateNextPaymentDate.induct)
  case (1 today t)
  show ?case
  proof (cases "t \<le> today")
    case True
    then obtain d where d: "advanceMonth t = Some d" "calculateNextPaymentDate today d = Some r"
      using 1(2) by (auto split: option.splits)
    then obtain k where k: "monthsAdvanced k d = Some r" "today < r"
      "\<forall>j<k. \<exists>u. monthsAdvanced j d = Some u \<and> u \<le> today"
      using 1(1)[OF True d(1)] by auto
    have "\<forall>j<Suc k. \<exists>u. monthsAdvanced j t = Some u \<and> u \<le> today"
    proof (intro allI impI)
      fix j assume "j < Suc k"
      then show "\<exists>u. monthsAdvanced j t = Some u \<and> u \<le> today"
        using k(3) d(1) True by (cases j) auto
    qed
    moreover have "monthsAdvanced (Suc k) t = Some r" using d(1) k(1) by simp
    ultimately show ?thesis using k(2) by blast
  next
    case False
    then have "r = t" using 1(2) by simp
    then have "monthsAdvanced 0 t = Some r \<and> today < r \<and>
       (\<forall>j<0. \<exists>u. monthsAdvanced j t = Some u \<and> u \<le> today)" using False by simp
    then show ?thesis by blast
  qed
qed

lemma monthsAdvanced_add:
  "monthsAdvanced j t = Some u \<Longrightarrow> monthsAdvanced (j + i) t = monthsAdvanced i u"
  by (induction j arbitrary: t) (auto split: option.splits)

lemma monthsAdvanced_le: "monthsAdvanced i u = Some v \<Longrightarrow> u \<le> v"
proof (induction i arbitrary: u)
  case 0
  then show ?case by simp
next
  case (Suc i)
  then obtain d where d: "advanceMonth u = Some d" "monthsAdvanced i d = Some v"
    by (auto split: option.splits)
  then have "u \<le> d" using advanceMonth_increases[of u d] by (simp add: msPerDay_def)
  then show ?case using Suc.IH[OF d(2)] by simp
qed

lemma monthsAdvanced_mono:
  assumes "j \<le> k" "monthsAdvanced j t = Some u" "monthsAdvanced k t = Some v"
  shows "u \<le> v"
proof -
  have "monthsAdvanced (j + (k - j)) t = monthsAdvanced (k - j) u"
    using monthsAdvanced_add[OF assms(2)] .
  then have "monthsAdvanced (k - j) u = Some v" using assms(1,3) by simp
  then show ?thesis by (rule monthsAdvanced_le)
qed

text \<open>
  Claim C7, as the code has it. For a stored start date and a clock reading at least 31 days
  before the end of the range of time values, calculateNextPaymentDate returns a date \<open>r\<close>;
  \<open>r\<close> is reached from the start date by advancing \<open>k\<close> times by one calendar month, each
  time from the date reached before (\<open>monthsAdvanced\<close>); it is strictly later than the clock
  reading; and no date of that sequence that is later than the clock reading is earlier
  than \<open>r\<close>.
\<close>

theorem calculateNextPaymentDate_first_after:
  assumes "- maxTime \<le> startDate" "startDate \<le> maxTime" "today + 31 * msPerDay \<le> maxTime"
  shows "\<exists>r k. calculateNextPaymentDate today startDate = Some r
           \<and> monthsAdvanced k startDate = Some r \<and> today < r
           \<and> (\<forall>j u. monthsAdvanced j startDate = Some u \<and> today < u \<longrightarrow> r \<le> u)"
proof -
  obtain r where r: "calculateNextPaymentDate today startDate = Some r"
    using calculateNextPaymentDate_returns[OF assms] by blast
  then obtain k where k: "monthsAdvanced k startDate = Some r" "today < r"
    "\<forall>j<k. \<exists>u. monthsAdvanced j startDate = Some u \<and> u \<le> today"
    using calculateNextPaymentDate_steps by blast
  have "r \<le> u" if u: "monthsAdvanced j startDate = Some u" "today < u" for j u
  proof (cases "j < k")
    case True
    then show ?thesis using k(3) u by fastforce
  next
    case False
    then show ?thesis using monthsAdvanced_mono[OF _ k(1) u(1)] by simp
  qed
  then show ?thesis using r k(1,2) by blast
qed

theorem calculateNextPaymentDate_first_after_witness:
  "\<exists>r k. calculateNextPaymentDate 1678406400000 1675123200000 = Some r
           \<and> monthsAdvanced k 1675123200000 = Some r \<and> 1678406400000 < r
           \<and> (\<forall>j u. monthsAdvanced j 1675123200000 = Some u \<and> 1678406400000 < u \<longrightarrow> r \<le> u)"
  using calculateNextPaymentDate_first_after[of 1675123200000 1678406400000]
  by (simp add: maxTime_def msPerDay_def)

text \<open>
  The claim as the spec words it, with "startDate + k months" computed from the start date
  in one step (\<open>plusMonths\<close>), fails for a start on the 31st. Start 2023-01-31T00:00Z, clock
  2023-03-10T00:00Z: the loop goes to 2023-03-03 (February has no 31st) and from there to
  2023-04-03, which it returns; startDate + 2 months is 2023-03-31, later than the clock and
  earlier than the result.
\<close>

theorem calculateNextPaymentDate_not_smallest_plusMonths:
  "calculateNextPaymentDate 1678406400000 1675123200000 = Some 1680480000000
   \<and> plusMonths 1675123200000 2 = Some 1680220800000
   \<and> (1678406400000::int) < 1680220800000 \<and> (1680220800000::int) < 1680480000000"
  by code_simp

section \<open>The store\<close>

text \<open>
  The Prisma tables the controller touches, as lists of rows in the order the database
  returns them. \<^verbatim>\<open>findUnique\<close> and \<^verbatim>\<open>findFirst\<close> return the first matching row,
  \<^verbatim>\<open>update\<close> and \<^verbatim>\<open>updateMany\<close> rewrite the matching rows in place, \<^verbatim>\<open>create\<close> appends a
  row whose id is the table's next autoincrement value. Strings are lists of 8-bit
  characters. The Float columns (rent, deposit) are only ever copied, never computed with;
  they are integers here. A property's location and manager are required relations; the
  property row carries the address and the manager's id.
\<close>

type_synonym amount = int

record property =
  p_id :: int
  pricePerMonth :: amount
  securityDeposit :: amount
  managerCognitoId :: string
  address :: string
  tenants :: "string list"

record lease =
  l_id :: int
  startDate :: int
  endDate :: int
  rent :: amount
  deposit :: amount
  l_propertyId :: int
  l_tenantCognitoId :: string

record application =
  a_id :: int
  applicationDate :: int
  status :: string
  name :: string
  email :: string
  phoneNumber :: string
  message :: "string option"
  dateOfBirth :: "int option"
  moveInDate :: "int option"
  extended :: "(string \<times> string option) list"
  propertyId :: int
  tenantCognitoId :: string
  leaseId :: "int option"

record store =
  properties :: "property list"
  tenantIds :: "string list"
  applications :: "application list"
  leases :: "lease list"
  nextApplicationId :: int
  nextLeaseId :: int

text \<open>
  Modelled from the spec: the enum of the status column is declared in the Prisma schema,
  which is not among the sources; the spec gives its values as Pending, Approved, Denied.
  Prisma refuses to write any other value.
\<close>

definition ApplicationStatus :: "string list" where
  "ApplicationStatus = [''Pending'', ''Denied'', ''Approved'']"

datatype error =
    MissingField
  | InvalidEmail
  | PropertyNotFound
  | TenantNotFound
  | DuplicateApproved
  | DuplicatePending
  | InvalidStatus
  | ApplicationNotFound
  | CannotModifyApproved
  | LeaseAlreadyExists
  | ActiveLeaseExists
  | ServerError

text \<open>
  Every handler is a function from the store (and the clock readings it takes) to the
  store it leaves and its response. \<open>ServerError\<close> is the \<^verbatim>\<open>catch\<close> block (status 500):
  an exception thrown by Prisma or by the handler itself.
\<close>

definition findProperty :: "store \<Rightarrow> int \<Rightarrow> property option" where
  "findProperty s i = find (\<lambda>p. p_id p = i) (properties s)"

definition findTenant :: "store \<Rightarrow> string \<Rightarrow> string option" where
  "findTenant s c = find (\<lambda>t. t = c) (tenantIds s)"

definition findApplication :: "store \<Rightarrow> int \<Rightarrow> application option" where
  "findApplication s i = find (\<lambda>a. a_id a = i) (applications s)"

definition findLease :: "store \<Rightarrow> int \<Rightarrow> lease option" where
  "findLease s i = find (\<lambda>l. l_id l = i) (leases s)"

text \<open>\<^verbatim>\<open>include: { lease: true }\<close>: the lease row the application's \<open>leaseId\<close> refers to.\<close>

definition applicationLease :: "store \<Rightarrow> application \<Rightarrow> lease option" where
  "applicationLease s a = (case leaseId a of None \<Rightarrow> None | Some i \<Rightarrow> findLease s i)"

subsection \<open>createApplication\<close>

text \<open>
  The request body. A field that is absent is \<open>None\<close>; \<^verbatim>\<open>!x\<close> is true of an absent
  field, of the empty string and of the number 0. A date field is absent (or falsy), or a
  value \<^verbatim>\<open>new Date\<close> cannot read (the Invalid Date, which Prisma refuses to write), or a
  date. The optional profile fields that are not dates are kept as one list of named
  values; each is stored as \<^verbatim>\<open>x || null\<close> (the four flags as \<^verbatim>\<open>x || false\<close>). None of
  them is read by any branch of the handler.
\<close>

datatype dateField = NoDate | BadDate | GoodDate int

record submission =
  q_applicationDate :: dateField
  q_status :: "string option"
  q_propertyId :: "int option"
  q_tenantCognitoId :: "string option"
  q_name :: "string option"
  q_email :: "string option"
  q_phoneNumber :: "string option"
  q_message :: "string option"
  q_dateOfBirth :: dateField
  q_moveInDate :: dateField
  q_extended :: "(string \<times> string option) list"

definition orNull :: "string option \<Rightarrow> string option" where
  "orNull x = (case x of None \<Rightarrow> None | Some v \<Rightarrow> if v = [] then None else Some v)"

text \<open>
  \<^verbatim>\<open>if (!propertyId || !tenantCognitoId || !name || !email || !phoneNumber)\<close>: the five
  required fields when all are present and truthy.
\<close>

definition requiredFields :: "submission \<Rightarrow> (int \<times> string \<times> string \<times> string \<times> string) option" where
  "requiredFields q =
     (case q_propertyId q of None \<Rightarrow> None | Some pid \<Rightarrow>
      case q_tenantCognitoId q of None \<Rightarrow> None | Some tid \<Rightarrow>
      case q_name q of None \<Rightarrow> None | Some nm \<Rightarrow>
      case q_email q of None \<Rightarrow> None | Some em \<Rightarrow>
      case q_phoneNumber q of None \<Rightarrow> None | Some ph \<Rightarrow>
        if pid = 0 \<or> tid = [] \<or> nm = [] \<or> em = [] \<or> ph = [] then None
        else Some (pid, tid, nm, em, ph))"

text \<open>
  \<^verbatim>\<open>/^[^\s@]+@[^\s@]+\.[^\s@]+$/.test(email)\<close>. The first \<^verbatim>\<open>[^\s@]+\<close> must end at the
  first character that is white space or \<^verbatim>\<open>@\<close>, which must be the \<^verbatim>\<open>@\<close>; everything after it
  is free of white space and \<^verbatim>\<open>@\<close> and has a dot that is neither its first nor its last
  character.
\<close>

definition whiteSpace :: "char \<Rightarrow> bool" where
  "whiteSpace c = (c \<in> set [CHR 0x09, CHR 0x0A, CHR 0x0B, CHR 0x0C, CHR 0x0D, CHR 0x20, CHR 0xA0])"

definition plainChar :: "char \<Rightarrow> bool" where
  "plainChar c = (\<not> whiteSpace c \<and> c \<noteq> CHR ''@'')"

definition emailRegex_test :: "string \<Rightarrow> bool" where
  "emailRegex_test s =
     (takeWhile plainChar s \<noteq> [] \<and>
      (case dropWhile plainChar s of
         [] \<Rightarrow> False
       | c # host \<Rightarrow> c = CHR ''@'' \<and> list_all plainChar host \<and> CHR ''.'' \<in> set (butlast (tl host))))"

definition readDate :: "dateField \<Rightarrow> int option option" where
  "readDate d = (case d of NoDate \<Rightarrow> Some None | BadDate \<Rightarrow> None | GoodDate t \<Rightarrow> Some (Some t))"

text \<open>
  The row \<^verbatim>\<open>prisma.application.create\<close> writes, or \<open>None\<close> when Prisma throws (a status
  outside the enum, an Invalid Date). No \<open>leaseId\<close> is given, so the column is null.
\<close>

definition newApplicationRow ::
  "store \<Rightarrow> int \<Rightarrow> submission \<Rightarrow> int \<Rightarrow> string \<Rightarrow> string \<Rightarrow> string \<Rightarrow> string \<Rightarrow> application option" where
  "newApplicationRow s now q pid tid nm em ph =
     (let st = (case q_status q of None \<Rightarrow> ''Pending'' | Some v \<Rightarrow> if v = [] then ''Pending'' else v)
      in if st \<notin> set ApplicationStatus then None
         else case (case q_applicationDate q of NoDate \<Rightarrow> Some now | BadDate \<Rightarrow> None | GoodDate t \<Rightarrow> Some t) of
                None \<Rightarrow> None
              | Some ad \<Rightarrow>
           case readDate (q_dateOfBirth q) of None \<Rightarrow> None | Some dob \<Rightarrow>
           case readDate (q_moveInDate q) of None \<Rightarrow> None | Some mid \<Rightarrow>
             Some \<lparr> a_id = nextApplicationId s, applicationDate = ad, status = st,
                    name = nm, email = em, phoneNumber = ph, message = orNull (q_message q),
                    dateOfBirth = dob, moveInDate = mid,
                    extended = map (\<lambda>(k, v). (k, orNull v)) (q_extended q),
                    propertyId = pid, tenantCognitoId = tid, leaseId = None \<rparr>)"

definition createApplication ::
  "store \<Rightarrow> int \<Rightarrow> submission \<Rightarrow> store \<times> (error + application \<times> property \<times> string)" where
  "createApplication s now q =
     (case requiredFields q of
        None \<Rightarrow> (s, Inl MissingField)
      | Some (pid, tid, nm, em, ph) \<Rightarrow>
          if \<not> emailRegex_test em then (s, Inl InvalidEmail)
          else case findProperty s pid of
            None \<Rightarrow> (s, Inl PropertyNotFound)
          | Some prop \<Rightarrow>
              case findTenant s tid of
                None \<Rightarrow> (s, Inl TenantNotFound)
              | Some tenant \<Rightarrow>
                  case find (\<lambda>a. propertyId a = pid \<and> tenantCognitoId a = tid
                                 \<and> status a \<in> set [''Pending'', ''Approved''])
                            (applications s) of
                    Some existingApplication \<Rightarrow>
                      if status existingApplication = ''Approved''
                      then (s, Inl DuplicateApproved)
                      else (s, Inl DuplicatePending)
                  | None \<Rightarrow>
                      case newApplicationRow s now q pid tid nm em ph of
                        None \<Rightarrow> (s, Inl ServerError)
                      | Some newApplication \<Rightarrow>
                          (s\<lparr> applications := applications s @ [newApplication],
                              nextApplicationId := nextApplicationId s + 1 \<rparr>,
                           Inr (newApplication, prop, tenant)))"

subsection \<open>updateApplicationStatus\<close>

text \<open>
  The handler reads the clock four times: for the active-lease query
  (\<^verbatim>\<open>gte: new Date()\<close>), for \<^verbatim>\<open>startDate: new Date()\<close>, and twice in
  \<^verbatim>\<open>new Date(new Date().setFullYear(new Date().getFullYear() + 1))\<close>, first for the date
  whose year is set and then for the date whose year is read. The four readings are the
  handler's input, in this order. The id is the number \<^verbatim>\<open>Number(id)\<close> of the route
  parameter.
\<close>

record clock =
  nowCheck :: int
  nowStart :: int
  nowEndBase :: int
  nowEndYear :: int

definition validStatuses :: "string list" where
  "validStatuses = [''Pending'', ''Approved'', ''Denied'']"

definition activeLease :: "store \<Rightarrow> application \<Rightarrow> int \<Rightarrow> lease option" where
  "activeLease s a now =
     find (\<lambda>l. l_propertyId l = propertyId a \<and> l_tenantCognitoId l = tenantCognitoId a
                \<and> now \<le> endDate l) (leases s)"

text \<open>
  The body of \<^verbatim>\<open>prisma.$transaction\<close>: the store it commits, or \<open>None\<close> when a step
  throws and the transaction rolls back (the application's property row or tenant row is
  missing, or the end date is the Invalid Date).
\<close>

definition leaseTransaction :: "store \<Rightarrow> clock \<Rightarrow> int \<Rightarrow> application \<Rightarrow> string \<Rightarrow> store option" where
  "leaseTransaction s clk i a st =
     (case findProperty s (propertyId a) of None \<Rightarrow> None | Some prop \<Rightarrow>
      case setFullYear (nowEndBase clk) (getFullYear (nowEndYear clk) + 1) of None \<Rightarrow> None | Some e \<Rightarrow>
      case findTenant s (tenantCognitoId a) of None \<Rightarrow> None | Some tenant \<Rightarrow>
        let newLease = \<lparr> l_id = nextLeaseId s, startDate = nowStart clk, endDate = e,
                          rent = pricePerMonth prop, deposit = securityDeposit prop,
                          l_propertyId = propertyId a, l_tenantCognitoId = tenantCognitoId a \<rparr>;
            s1 = s\<lparr> leases := leases s @ [newLease], nextLeaseId := nextLeaseId s + 1 \<rparr>;
            s2 = s1\<lparr> properties :=
                       map (\<lambda>p. if p_id p = propertyId a
                                 then p\<lparr> tenants := List.insert tenant (tenants p) \<rparr> else p)
                           (properties s1) \<rparr>;
            s3 = s2\<lparr> applications :=
                       map (\<lambda>b. if a_id b = i
                                 then b\<lparr> status := st, leaseId := Some (l_id newLease) \<rparr> else b)
                           (applications s2) \<rparr>;
            s4 = s3\<lparr> applications :=
                       map (\<lambda>b. if propertyId b = propertyId a \<and> a_id b \<noteq> i \<and> status b = ''Pending''
                                 then b\<lparr> status := ''Denied'' \<rparr> else b)
                           (applications s3) \<rparr>
        in Some s4)"

text \<open>The final \<^verbatim>\<open>findUnique\<close> with property, tenant and lease included.\<close>

definition readApplication ::
  "store \<Rightarrow> int \<Rightarrow> (application \<times> property option \<times> string option \<times> lease option) option" where
  "readApplication s i =
     (case findApplication s i of
        None \<Rightarrow> None
      | Some a \<Rightarrow> Some (a, findProperty s (propertyId a), findTenant s (tenantCognitoId a),
                        applicationLease s a))"

definition updateApplicationStatus ::
  "store \<Rightarrow> clock \<Rightarrow> int \<Rightarrow> string option \<Rightarrow>
   store \<times> (error + (application \<times> property option \<times> string option \<times> lease option) option)" where
  "updateApplicationStatus s clk i body_status =
     (case body_status of
        None \<Rightarrow> (s, Inl InvalidStatus)
      | Some st \<Rightarrow>
          if st = [] \<or> st \<notin> set validStatuses then (s, Inl InvalidStatus)
          else case findApplication s i of
            None \<Rightarrow> (s, Inl ApplicationNotFound)
          | Some a \<Rightarrow>
              if status a = ''Approved'' \<and> st \<noteq> ''Approved'' then (s, Inl CannotModifyApproved)
              else if applicationLease s a \<noteq> None \<and> st = ''Approved'' then (s, Inl LeaseAlreadyExists)
              else if st = ''Approved'' then
                (case activeLease s a (nowCheck clk) of
                   Some existingLease \<Rightarrow> (s, Inl ActiveLeaseExists)
                 | None \<Rightarrow>
                     (case leaseTransaction s clk i a st of
                        None \<Rightarrow> (s, Inl ServerError)
                      | Some s' \<Rightarrow> (s', Inr (readApplication s' i))))
              else
                (let s' = s\<lparr> applications :=
                              map (\<lambda>b. if a_id b = i then b\<lparr> status := st \<rparr> else b)
                                  (applications s) \<rparr>
                 in (s', Inr (readApplication s' i))))"

subsection \<open>listApplications\<close>

datatype whereClause = Everything | OfTenant string | OfManager string

definition truthy :: "string option \<Rightarrow> bool" where
  "truthy x = (case x of None \<Rightarrow> False | Some v \<Rightarrow> v \<noteq> [])"

definition whereClauseOf :: "string option \<Rightarrow> string option \<Rightarrow> whereClause" where
  "whereClauseOf userId userType =
     (case (userId, userType) of
        (Some u, Some ty) \<Rightarrow>
          if u \<noteq> [] \<and> ty \<noteq> [] then
            (if ty = ''tenant'' then OfTenant u
             else if ty = ''manager'' then OfManager u
             else Everything)
          else Everything
      | _ \<Rightarrow> Everything)"

fun selected :: "store \<Rightarrow> whereClause \<Rightarrow> application \<Rightarrow> bool" where
  "selected s Everything a = True"
| "selected s (OfTenant u) a = (tenantCognitoId a = u)"
| "selected s (OfManager u) a =
     (case findProperty s (propertyId a) of None \<Rightarrow> False | Some p \<Rightarrow> managerCognitoId p = u)"

text \<open>\<^verbatim>\<open>findFirst\<close> with \<^verbatim>\<open>orderBy: { startDate: "desc" }\<close>: the first row with the latest start.\<close>

fun latest :: "lease list \<Rightarrow> lease option" where
  "latest [] = None"
| "latest (l # ls) =
     (case latest ls of
        None \<Rightarrow> Some l
      | Some m \<Rightarrow> if startDate m > startDate l then Some m else Some l)"

record applicationView =
  v_application :: application
  v_property :: property
  v_address :: string
  v_manager :: string
  v_tenant :: "string option"
  v_lease :: "(lease \<times> int option) option"

text \<open>
  One element of \<^verbatim>\<open>formattedApplications\<close>; \<open>None\<close> when \<^verbatim>\<open>app.property\<close> is null and
  reading its location throws. \<open>today\<close> is the clock reading of this element's call of
  calculateNextPaymentDate.
\<close>

definition formatApplication :: "store \<Rightarrow> int \<Rightarrow> application \<Rightarrow> applicationView option" where
  "formatApplication s today a =
     (case findProperty s (propertyId a) of
        None \<Rightarrow> None
      | Some p \<Rightarrow>
          Some \<lparr> v_application = a, v_property = p, v_address = address p,
                 v_manager = managerCognitoId p,
                 v_tenant = findTenant s (tenantCognitoId a),
                 v_lease =
                   (case latest (filter (\<lambda>l. l_tenantCognitoId l = tenantCognitoId a
                                              \<and> l_propertyId l = propertyId a) (leases s)) of
                      None \<Rightarrow> None
                    | Some l \<Rightarrow> Some (l, calculateNextPaymentDate today (startDate l))) \<rparr>)"

fun formatAll :: "store \<Rightarrow> (nat \<Rightarrow> int) \<Rightarrow> nat \<Rightarrow> application list \<Rightarrow> applicationView list option" where
  "formatAll s today k [] = Some []"
| "formatAll s today k (a # as) =
     (case formatApplication s (today k) a of
        None \<Rightarrow> None
      | Some v \<Rightarrow> (case formatAll s today (Suc k) as of None \<Rightarrow> None | Some vs \<Rightarrow> Some (v # vs)))"

definition listApplications ::
  "store \<Rightarrow> (nat \<Rightarrow> int) \<Rightarrow> string option \<Rightarrow> string option \<Rightarrow> error + applicationView list" where
  "listApplications s today userId userType =
     (case formatAll s today 0 (filter (selected s (whereClauseOf userId userType)) (applications s)) of
        None \<Rightarrow> Inl ServerError
      | Some vs \<Rightarrow> Inr vs)"

section \<open>Example stores\<close>

text \<open>
  Scenario 1 of the spec: property 1, tenants T1 and T2, and T1's submission. \<open>store1\<close> is
  the store after the submission, \<open>store2\<close> after its approval.
\<close>

definition property1 :: property where
  "property1 = \<lparr> p_id = 1, pricePerMonth = 1200, securityDeposit = 500,
                  managerCognitoId = ''M1'', address = ''1 Main St'', tenants = [] \<rparr>"

definition store0 :: store where
  "store0 = \<lparr> properties = [property1], tenantIds = [''T1'', ''T2''], applications = [],
               leases = [], nextApplicationId = 1, nextLeaseId = 1 \<rparr>"

definition submission1 :: submission where
  "submission1 = \<lparr> q_applicationDate = NoDate, q_status = None, q_propertyId = Some 1,
                    q_tenantCognitoId = Some ''T1'', q_name = Some ''A'',
                    q_email = Some ''a@b.com'', q_phoneNumber = Some ''555-0100'',
                    q_message = None, q_dateOfBirth = NoDate, q_moveInDate = NoDate,
                    q_extended = [] \<rparr>"

definition clockAt :: "int \<Rightarrow> clock" where
  "clockAt t = \<lparr> nowCheck = t, nowStart = t, nowEndBase = t, nowEndYear = t \<rparr>"

definition store1 :: store where
  "store1 = fst (createApplication store0 1699000000000 submission1)"

definition store2 :: store where
  "store2 = fst (updateApplicationStatus store1 (clockAt 1700000000000) 1 (Some ''Approved''))"

section \<open>Properties of the handlers\<close>

text \<open>
  Claim C8. When the status of the request body is absent or is not exactly one of
  "Pending", "Approved", "Denied", updateApplicationStatus answers InvalidStatus and leaves
  the store as it is; the answer is the same for every store, every clock and every id, so
  nothing of the store is read.
\<close>

theorem invalid_status_rejected:
  assumes "body_status \<notin> {Some ''Pending'', Some ''Approved'', Some ''Denied''}"
  shows "updateApplicationStatus s clk i body_status = (s, Inl InvalidStatus)
         \<and> snd (updateApplicationStatus s' clk' i' body_status) = Inl InvalidStatus"
  using assms by (auto simp: updateApplicationStatus_def validStatuses_def split: option.splits)

theorem invalid_status_rejected_witness:
  "Some ''approved'' \<notin> {Some ''Pending'', Some ''Approved'', Some ''Denied''}
   \<and> updateApplicationStatus store2 (clockAt 1700000000001) 1 (Some ''approved'') = (store2, Inl InvalidStatus)
   \<and> snd (updateApplicationStatus store0 (clockAt 0) 7 (Some ''approved'')) = Inl InvalidStatus"
  using invalid_status_rejected[of "Some ''approved''" store2 "clockAt 1700000000001" 1 store0 "clockAt 0" 7]
  by simp

text \<open>
  Claim C9. A call with target Denied or Pending on an existing application that is not
  Approved succeeds; the leases, the lease counter, the properties (with their tenant
  lists) and the tenants are unchanged, and every application row is unchanged except
  that the rows with the given id have the new status (their leaseId included in what is
  unchanged).
\<close>

theorem status_only_update:
  assumes "findApplication s i = Some a" "status a \<noteq> ''Approved''"
      and "st = ''Denied'' \<or> st = ''Pending''"
  shows "\<exists>s' r. updateApplicationStatus s clk i (Some st) = (s', Inr r)
           \<and> leases s' = leases s \<and> nextLeaseId s' = nextLeaseId s
           \<and> properties s' = properties s \<and> tenantIds s' = tenantIds s
           \<and> length (applications s') = length (applications s)
           \<and> (\<forall>k < length (applications s).
                 applications s' ! k =
                   (if a_id (applications s ! k) = i
                    then (applications s ! k)\<lparr> status := st \<rparr>
                    else applications s ! k))"
  using assms by (auto simp: updateApplicationStatus_def validStatuses_def Let_def)

definition store3 :: store where
  "store3 = fst (createApplication store1 1699000000001 (submission1\<lparr> q_tenantCognitoId := Some ''T2'' \<rparr>))"

theorem status_only_update_witness:
  "findApplication store3 2 = Some (applications store3 ! 1)
   \<and> status (applications store3 ! 1) \<noteq> ''Approved''
   \<and> (\<exists>s' r. updateApplicationStatus store3 (clockAt 1700000000000) 2 (Some ''Denied'') = (s', Inr r)
           \<and> leases s' = leases store3 \<and> nextLeaseId s' = nextLeaseId store3
           \<and> properties s' = properties store3 \<and> tenantIds s' = tenantIds store3
           \<and> length (applications s') = length (applications store3)
           \<and> applications s' ! 0 = applications store3 ! 0
           \<and> applications s' ! 1 = (applications store3 ! 1)\<lparr> status := ''Denied'' \<rparr>)"
proof -
  have a: "findApplication store3 2 = Some (applications store3 ! 1)" by code_simp
  have b: "status (applications store3 ! 1) \<noteq> ''Approved''" by code_simp
  have c: "a_id (applications store3 ! 0) \<noteq> 2" "a_id (applications store3 ! 1) = 2"
    "length (applications store3) = 2" by code_simp+
  obtain s' r where s': "updateApplicationStatus store3 (clockAt 1700000000000) 2 (Some ''Denied'') = (s', Inr r)"
    "leases s' = leases store3" "nextLeaseId s' = nextLeaseId store3"
    "properties s' = properties store3" "tenantIds s' = tenantIds store3"
    "length (applications s') = length (applications store3)"
    "\<forall>k < length (applications store3).
                 applications s' ! k =
                   (if a_id (applications store3 ! k) = 2
                    then (applications store3 ! k)\<lparr> status := ''Denied'' \<rparr>
                    else applications store3 ! k)"
    using status_only_update[OF a b, of "''Denied''" "clockAt 1700000000000"] by auto
  have "applications s' ! 0 = applications store3 ! 0" 
    "applications s' ! 1 = (applications store3 ! 1)\<lparr> status := ''Denied'' \<rparr>"
    using s'(7) c by auto
  then show ?thesis using a b s' by blast
qed

text \<open>
  Claim C3, as the code has it. On an application whose status is Approved, a call with
  target Pending or Denied fails with CannotModifyApproved, and a call with target
  Approved fails with LeaseAlreadyExists when the application carries a lease; the store
  is unchanged in both cases.
\<close>

theorem approved_rejects_changes:
  assumes "findApplication s i = Some a" "status a = ''Approved''"
  shows "(st = ''Pending'' \<or> st = ''Denied'' \<longrightarrow>
            updateApplicationStatus s clk i (Some st) = (s, Inl CannotModifyApproved))
       \<and> (applicationLease s a \<noteq> None \<longrightarrow>
            updateApplicationStatus s clk i (Some ''Approved'') = (s, Inl LeaseAlreadyExists))"
  using assms by (auto simp: updateApplicationStatus_def validStatuses_def)

theorem approved_rejects_changes_witness:
  "findApplication store2 1 = Some (applications store2 ! 0)
   \<and> status (applications store2 ! 0) = ''Approved''
   \<and> applicationLease store2 (applications store2 ! 0) \<noteq> None
   \<and> updateApplicationStatus store2 (clockAt 1700000000001) 1 (Some ''Pending'') = (store2, Inl CannotModifyApproved)
   \<and> updateApplicationStatus store2 (clockAt 1700000000001) 1 (Some ''Denied'') = (store2, Inl CannotModifyApproved)
   \<and> updateApplicationStatus store2 (clockAt 1700000000001) 1 (Some ''Approved'') = (store2, Inl LeaseAlreadyExists)"
proof -
  have a: "findApplication store2 1 = Some (applications store2 ! 0)" by code_simp
  have b: "status (applications store2 ! 0) = ''Approved''" by code_simp
  have c: "applicationLease store2 (applications store2 ! 0) \<noteq> None" by code_simp
  show ?thesis
    using a b c approved_rejects_changes[OF a b, of "''Pending''" "clockAt 1700000000001"]
      approved_rejects_changes[OF a b, of "''Denied''" "clockAt 1700000000001"]
    by simp
qed

text \<open>
  The claim as stated fails for the target Approved: the first guard lets it pass
  (\<^verbatim>\<open>status !== "Approved"\<close> is false) and the second guard answers LeaseAlreadyExists.
  \<open>store2\<close> is reached by submitting application 1 and approving it.
\<close>

theorem approved_reapproval_error:
  "status (applications store2 ! 0) = ''Approved''
   \<and> findApplication store2 1 = Some (applications store2 ! 0)
   \<and> updateApplicationStatus store2 (clockAt 1700000000001) 1 (Some ''Approved'')
       = (store2, Inl LeaseAlreadyExists)"
  by code_simp

lemma newApplicationRow_fields:
  assumes "newApplicationRow s now q pid tid nm em ph = Some a"
  shows "leaseId a = None \<and> a_id a = nextApplicationId s \<and> propertyId a = pid \<and> tenantCognitoId a = tid
       \<and> status a \<in> set ApplicationStatus
       \<and> (q_status q = None \<or> q_status q = Some [] \<longrightarrow> status a = ''Pending'')
       \<and> (\<forall>v. q_status q = Some v \<and> v \<noteq> [] \<longrightarrow> status a = v)"
  using assms by (auto simp: newApplicationRow_def Let_def split: option.splits if_splits)

lemma createApplication_success:
  assumes "createApplication s now q = (s', Inr (a, p, t))"
  shows "\<exists>pid tid nm em ph. requiredFields q = Some (pid, tid, nm, em, ph)
          \<and> emailRegex_test em \<and> findProperty s pid = Some p \<and> findTenant s tid = Some t
          \<and> find (\<lambda>a. propertyId a = pid \<and> tenantCognitoId a = tid
                        \<and> status a \<in> set [''Pending'', ''Approved'']) (applications s) = None
          \<and> newApplicationRow s now q pid tid nm em ph = Some a
          \<and> s' = s\<lparr> applications := applications s @ [a], nextApplicationId := nextApplicationId s + 1 \<rparr>"
  using assms unfolding createApplication_def
  by (auto split: option.splits if_splits prod.splits)

text \<open>
  Claim C1, as the code has it. Every accepted submission appends one application with
  \<open>leaseId\<close> null and leaves the leases as they are. Its status is Pending when the
  payload gives no status (or an empty one); a status the payload gives is stored as given.
\<close>

theorem submission_creates_no_lease:
  assumes "createApplication s now q = (s', Inr (a, p, t))"
  shows "leaseId a = None \<and> leases s' = leases s \<and> applications s' = applications s @ [a]
       \<and> (q_status q = None \<or> q_status q = Some [] \<longrightarrow> status a = ''Pending'')
       \<and> (\<forall>v. q_status q = Some v \<and> v \<noteq> [] \<longrightarrow> status a = v)"
proof -
  obtain pid tid nm em ph where r: "newApplicationRow s now q pid tid nm em ph = Some a"
    "s' = s\<lparr> applications := applications s @ [a], nextApplicationId := nextApplicationId s + 1 \<rparr>"
    using createApplication_success[OF assms] by blast
  show ?thesis using newApplicationRow_fields[OF r(1)] r(2) by simp
qed

theorem submission_creates_no_lease_witness:
  "createApplication store0 1699000000000 submission1 = (store1, Inr (applications store1 ! 0, property1, ''T1''))
   \<and> leaseId (applications store1 ! 0) = None \<and> leases store1 = leases store0
   \<and> applications store1 = applications store0 @ [applications store1 ! 0]
   \<and> q_status submission1 = None \<and> status (applications store1 ! 0) = ''Pending''"
proof -
  have a: "createApplication store0 1699000000000 submission1 = (store1, Inr (applications store1 ! 0, property1, ''T1''))"
    by code_simp
  have b: "q_status submission1 = None" by (simp add: submission1_def)
  show ?thesis using a b submission_creates_no_lease[OF a] by simp
qed

text \<open>
  The claim as stated fails for a payload that supplies a status:
  \<^verbatim>\<open>status: status || "Pending"\<close> stores it. Scenario 1 of the spec with
  \<^verbatim>\<open>status: "Approved"\<close> added creates an Approved application (without a lease).
\<close>

theorem submission_with_status_Approved:
  "(case createApplication store0 1699000000000 (submission1\<lparr> q_status := Some ''Approved'' \<rparr>) of
      (s', Inr (a, p, t)) \<Rightarrow> status a = ''Approved'' \<and> leaseId a = None \<and> map status (applications s') = [''Approved'']
    | (s', Inl e) \<Rightarrow> False)"
  by code_simp

definition pairApplications :: "store \<Rightarrow> int \<Rightarrow> string \<Rightarrow> application list" where
  "pairApplications s pid tid =
     filter (\<lambda>a. propertyId a = pid \<and> tenantCognitoId a = tid) (applications s)"

lemma newApplicationRow_defined:
  assumes "q_status q = None \<or> q_status q = Some [] \<or> (\<exists>v\<in>set ApplicationStatus. q_status q = Some v)"
      and "q_applicationDate q \<noteq> BadDate" "q_dateOfBirth q \<noteq> BadDate" "q_moveInDate q \<noteq> BadDate"
  shows "\<exists>a. newApplicationRow s now q pid tid nm em ph = Some a"
  using assms
  by (auto simp: newApplicationRow_def Let_def readDate_def ApplicationStatus_def
           split: option.splits dateField.splits)

lemma createApplication_guard:
  assumes "requiredFields q = Some (pid, tid, nm, em, ph)" "emailRegex_test em"
      and "findProperty s pid = Some p" "findTenant s tid = Some t"
  shows "createApplication s now q =
     (case find (\<lambda>a. propertyId a = pid \<and> tenantCognitoId a = tid
                        \<and> status a \<in> set [''Pending'', ''Approved'']) (applications s) of
        Some existingApplication \<Rightarrow>
          if status existingApplication = ''Approved''
          then (s, Inl DuplicateApproved) else (s, Inl DuplicatePending)
      | None \<Rightarrow>
          case newApplicationRow s now q pid tid nm em ph of
            None \<Rightarrow> (s, Inl ServerError)
          | Some newApplication \<Rightarrow>
              (s\<lparr> applications := applications s @ [newApplication],
                  nextApplicationId := nextApplicationId s + 1 \<rparr>,
               Inr (newApplication, p, t)))"
  using assms by (simp add: createApplication_def)

text \<open>
  Claim C5, as the code has it. For a submission that passes validation and names an
  existing property and tenant: when an application of the pair is Approved or Pending the
  answer is DuplicateApproved or DuplicatePending and the store is unchanged;
  DuplicateApproved is only answered when an Approved application of the pair exists, and
  DuplicatePending only when a Pending one does; when every application of the pair is
  Denied (and the payload's status, if any, is a value of the enum, and its dates are
  readable) the submission is accepted and appends one application without a lease, whose
  status is Pending unless the payload supplies one.
\<close>

theorem duplicate_guard:
  assumes "requiredFields q = Some (pid, tid, nm, em, ph)" "emailRegex_test em"
      and "findProperty s pid = Some p" "findTenant s tid = Some t"
  shows "((\<exists>a\<in>set (pairApplications s pid tid). status a = ''Approved'' \<or> status a = ''Pending'') \<longrightarrow>
            createApplication s now q = (s, Inl DuplicateApproved)
          \<or> createApplication s now q = (s, Inl DuplicatePending))
       \<and> (createApplication s now q = (s, Inl DuplicateApproved) \<longrightarrow>
            (\<exists>a\<in>set (pairApplications s pid tid). status a = ''Approved''))
       \<and> (createApplication s now q = (s, Inl DuplicatePending) \<longrightarrow>
            (\<exists>a\<in>set (pairApplications s pid tid). status a = ''Pending''))
       \<and> ((\<forall>a\<in>set (pairApplications s pid tid). status a = ''Denied'')
            \<and> (q_status q = None \<or> q_status q = Some [] \<or> (\<exists>v\<in>set ApplicationStatus. q_status q = Some v))
            \<and> q_applicationDate q \<noteq> BadDate \<and> q_dateOfBirth q \<noteq> BadDate \<and> q_moveInDate q \<noteq> BadDate \<longrightarrow>
            (\<exists>s' a. createApplication s now q = (s', Inr (a, p, t))
               \<and> applications s' = applications s @ [a] \<and> leases s' = leases s
               \<and> propertyId a = pid \<and> tenantCognitoId a = tid \<and> leaseId a = None
               \<and> (q_status q = None \<or> q_status q = Some [] \<longrightarrow> status a = ''Pending'')
               \<and> (\<forall>v. q_status q = Some v \<and> v \<noteq> [] \<longrightarrow> status a = v)))"
proof -
  let ?P = "\<lambda>a. propertyId a = pid \<and> tenantCognitoId a = tid \<and> status a \<in> set [''Pending'', ''Approved'']"
  note g = createApplication_guard[OF assms, of now]
  show ?thesis
  proof (cases "find ?P (applications s)")
    case None
    then have n: "\<forall>a\<in>set (applications s). \<not> ?P a" by (simp add: find_None_iff)
    have c1: "\<not> (\<exists>a\<in>set (pairApplications s pid tid). status a = ''Approved'' \<or> status a = ''Pending'')"
      using n by (auto simp: pairApplications_def)
    have c2: "createApplication s now q \<noteq> (s, Inl DuplicateApproved)"
      "createApplication s now q \<noteq> (s, Inl DuplicatePending)"
      using g None by (auto split: option.splits)
    have c4: "\<exists>s' a. createApplication s now q = (s', Inr (a, p, t))
               \<and> applications s' = applications s @ [a] \<and> leases s' = leases s
               \<and> propertyId a = pid \<and> tenantCognitoId a = tid \<and> leaseId a = None
               \<and> (q_status q = None \<or> q_status q = Some [] \<longrightarrow> status a = ''Pending'')
               \<and> (\<forall>v. q_status q = Some v \<and> v \<noteq> [] \<longrightarrow> status a = v)"
      if h: "q_status q = None \<or> q_status q = Some [] \<or> (\<exists>v\<in>set ApplicationStatus. q_status q = Some v)"
        "q_applicationDate q \<noteq> BadDate" "q_dateOfBirth q \<noteq> BadDate" "q_moveInDate q \<noteq> BadDate"
    proof -
      obtain a where a: "newApplicationRow s now q pid tid nm em ph = Some a"
        using newApplicationRow_defined[OF h] by blast
      have "createApplication s now q =
              (s\<lparr> applications := applications s @ [a],
                  nextApplicationId := nextApplicationId s + 1 \<rparr>, Inr (a, p, t))"
        using g None a by simp
      then show ?thesis using newApplicationRow_fields[OF a] by simp
    qed
    show ?thesis using c1 c2 c4 by blast
  next
    case (Some ex)
    then have ex: "ex \<in> set (applications s)" "?P ex"
      by (auto simp: find_Some_iff)
    then have m: "ex \<in> set (pairApplications s pid tid)" by (simp add: pairApplications_def)
    have r: "createApplication s now q =
        (if status ex = ''Approved'' then (s, Inl DuplicateApproved) else (s, Inl DuplicatePending))"
      using g Some by simp
    have "status ex \<noteq> ''Denied''" using ex(2) by auto
    then have d: "\<not> (\<forall>a\<in>set (pairApplications s pid tid). status a = ''Denied'')"
      using m by blast
    show ?thesis
    proof (cases "status ex = ''Approved''")
      case True
      then show ?thesis using r m d by auto
    next
      case False
      then have "status ex = ''Pending''" using ex(2) by auto
      then show ?thesis using r m d False by auto
    qed
  qed
qed

definition storeDenied :: store where
  "storeDenied = fst (updateApplicationStatus store1 (clockAt 1700000000000) 1 (Some ''Denied''))"

theorem duplicate_guard_witness:
  "requiredFields submission1 = Some (1, ''T1'', ''A'', ''a@b.com'', ''555-0100'')
   \<and> emailRegex_test ''a@b.com''
   \<and> findProperty store1 1 = Some property1 \<and> findTenant store1 ''T1'' = Some ''T1''
   \<and> map status (pairApplications store1 1 ''T1'') = [''Pending'']
   \<and> createApplication store1 1699000000005 submission1 = (store1, Inl DuplicatePending)
   \<and> map status (pairApplications store2 1 ''T1'') = [''Approved'']
   \<and> createApplication store2 1700000000005 submission1 = (store2, Inl DuplicateApproved)
   \<and> map status (pairApplications storeDenied 1 ''T1'') = [''Denied'']
   \<and> (\<exists>s' a. createApplication storeDenied 1700000000005 submission1 = (s', Inr (a, property1, ''T1''))
          \<and> applications s' = applications storeDenied @ [a] \<and> status a = ''Pending'' \<and> leaseId a = None)"
proof -
  have h: "requiredFields submission1 = Some (1, ''T1'', ''A'', ''a@b.com'', ''555-0100'')"
    "emailRegex_test ''a@b.com''" by code_simp+
  have p1: "findProperty store1 1 = Some property1" "findTenant store1 ''T1'' = Some ''T1''" by code_simp+
  have p2: "findProperty store2 1 = Some (properties store2 ! 0)" "findTenant store2 ''T1'' = Some ''T1''" by code_simp+
  have p3: "findProperty storeDenied 1 = Some property1" "findTenant storeDenied ''T1'' = Some ''T1''" by code_simp+
  have m1: "map status (pairApplications store1 1 ''T1'') = [''Pending'']" by code_simp
  have m2: "map status (pairApplications store2 1 ''T1'') = [''Approved'']" by code_simp
  have m3: "map status (pairApplications storeDenied 1 ''T1'') = [''Denied'']" by code_simp
  have q: "q_status submission1 = None" "q_applicationDate submission1 \<noteq> BadDate"
    "q_dateOfBirth submission1 \<noteq> BadDate" "q_moveInDate submission1 \<noteq> BadDate"
    by (simp_all add: submission1_def)
  have s1: "\<exists>a\<in>set (pairApplications store1 1 ''T1''). status a = ''Pending''"
    "\<not> (\<exists>a\<in>set (pairApplications store1 1 ''T1''). status a = ''Approved'')"
    using m1 by (auto simp: map_eq_Cons_conv)
  have s2: "\<exists>a\<in>set (pairApplications store2 1 ''T1''). status a = ''Approved''"
    "\<not> (\<exists>a\<in>set (pairApplications store2 1 ''T1''). status a = ''Pending'')"
    using m2 by (auto simp: map_eq_Cons_conv)
  have s3: "\<forall>a\<in>set (pairApplications storeDenied 1 ''T1''). status a = ''Denied''"
    using m3 by (auto simp: map_eq_Cons_conv)
  have r1: "createApplication store1 1699000000005 submission1 = (store1, Inl DuplicatePending)"
    using duplicate_guard[OF h p1, of 1699000000005] s1 by blast
  have r2: "createApplication store2 1700000000005 submission1 = (store2, Inl DuplicateApproved)"
    using duplicate_guard[OF h p2, of 1700000000005] s2 by blast
  have r3: "\<exists>s' a. createApplication storeDenied 1700000000005 submission1 = (s', Inr (a, property1, ''T1''))
          \<and> applications s' = applications storeDenied @ [a] \<and> status a = ''Pending'' \<and> leaseId a = None"
    using duplicate_guard[OF h p3, of 1700000000005] s3 q by blast
  show ?thesis using h p1 m1 m2 m3 r1 r2 r3 by blast
qed

text \<open>
  The claim as stated fails in its last part: after application 1 was denied, a
  resubmission whose payload carries \<^verbatim>\<open>status: "Denied"\<close> is accepted and creates a Denied
  application, not a Pending one.
\<close>

theorem resubmission_with_status_Denied:
  "map status (applications storeDenied) = [''Denied'']
   \<and> (case createApplication storeDenied 1700000000005 (submission1\<lparr> q_status := Some ''Denied'' \<rparr>) of
        (s', Inr (a, p, t)) \<Rightarrow> status a = ''Denied'' \<and> map status (applications s') = [''Denied'', ''Denied'']
      | (s', Inl e) \<Rightarrow> False)"
  by code_simp

lemma whereClauseOf_Everything:
  assumes "\<not> truthy userId \<or> \<not> truthy userType \<or> (userType \<noteq> Some ''tenant'' \<and> userType \<noteq> Some ''manager'')"
  shows "whereClauseOf userId userType = Everything"
  using assms by (auto simp: whereClauseOf_def truthy_def split: option.splits)

lemma formatAll_joined:
  assumes "\<forall>a\<in>set as. findProperty s (propertyId a) \<noteq> None"
  shows "\<exists>vs. formatAll s today k as = Some vs \<and> map v_application vs = as
           \<and> (\<forall>v\<in>set vs. findProperty s (propertyId (v_application v)) = Some (v_property v)
                         \<and> v_tenant v = findTenant s (tenantCognitoId (v_application v)))"
  using assms
proof (induction as arbitrary: k)
  case Nil
  then show ?case by simp
next
  case (Cons a as)
  then obtain p where p: "findProperty s (propertyId a) = Some p" by auto
  obtain vs where vs: "formatAll s today (Suc k) as = Some vs" "map v_application vs = as"
    "\<forall>v\<in>set vs. findProperty s (propertyId (v_application v)) = Some (v_property v)
                         \<and> v_tenant v = findTenant s (tenantCognitoId (v_application v))"
    using Cons.IH[of "Suc k"] Cons.prems by auto
  obtain v where v: "formatApplication s (today k) a = Some v" "v_application v = a" "v_property v = p"
    "v_tenant v = findTenant s (tenantCognitoId a)"
    using p by (simp add: formatApplication_def)
  have "formatAll s today k (a # as) = Some (v # vs)" using v(1) vs(1) by simp
  then show ?case using v vs p by auto
qed

text \<open>
  Claim C10. In a store where every application's property row exists (the schema's
  foreign key), a call with \<open>userId\<close> or \<open>userType\<close> absent or empty, or with a
  \<open>userType\<close> other than "tenant" and "manager", answers with one view per application of
  the store, in order, each joined with its property and its tenant.
\<close>

theorem listApplications_unfiltered:
  assumes "\<forall>a\<in>set (applications s). findProperty s (propertyId a) \<noteq> None"
      and "\<not> truthy userId \<or> \<not> truthy userType \<or> (userType \<noteq> Some ''tenant'' \<and> userType \<noteq> Some ''manager'')"
  shows "\<exists>vs. listApplications s today userId userType = Inr vs
           \<and> map v_application vs = applications s
           \<and> (\<forall>v\<in>set vs. findProperty s (propertyId (v_application v)) = Some (v_property v)
                         \<and> v_tenant v = findTenant s (tenantCognitoId (v_application v)))"
proof -
  have "filter (selected s (whereClauseOf userId userType)) (applications s) = applications s"
    using whereClauseOf_Everything[OF assms(2)] by simp
  then show ?thesis
    using formatAll_joined[OF assms(1), of today 0] by (auto simp: listApplications_def)
qed

theorem listApplications_unfiltered_witness:
  "map (\<lambda>a. findProperty store3 (propertyId a)) (applications store3) = [Some property1, Some property1]
   \<and> \<not> truthy None
   \<and> (\<exists>vs. listApplications store3 (\<lambda>k. 1700000000000) (Some ''T1'') None = Inr vs
           \<and> map v_application vs = applications store3 \<and> length vs = 2)
   \<and> (\<exists>vs. listApplications store3 (\<lambda>k. 1700000000000) (Some ''T1'') (Some ''admin'') = Inr vs
           \<and> map v_application vs = applications store3)"
proof -
  have m: "map (\<lambda>a. findProperty store3 (propertyId a)) (applications store3) = [Some property1, Some property1]"
    by code_simp
  have a: "\<forall>a\<in>set (applications store3). findProperty store3 (propertyId a) \<noteq> None"
  proof
    fix a assume "a \<in> set (applications store3)"
    then have "findProperty store3 (propertyId a) \<in> set (map (\<lambda>a. findProperty store3 (propertyId a)) (applications store3))"
      by simp
    then show "findProperty store3 (propertyId a) \<noteq> None" unfolding m by auto
  qed
  have b: "\<not> truthy None" by (simp add: truthy_def)
  have l: "length (applications store3) = 2" by code_simp
  have "\<exists>vs. listApplications store3 (\<lambda>k. 1700000000000) (Some ''T1'') None = Inr vs
           \<and> map v_application vs = applications store3"
    using listApplications_unfiltered[OF a, of "Some ''T1''" None "\<lambda>k. 1700000000000"] b by blast
  moreover have "\<exists>vs. listApplications store3 (\<lambda>k. 1700000000000) (Some ''T1'') (Some ''admin'') = Inr vs
           \<and> map v_application vs = applications store3"
    using listApplications_unfiltered[OF a, of "Some ''T1''" "Some ''admin''" "\<lambda>k. 1700000000000"] by auto
  ultimately show ?thesis using m b l by (metis length_map)
qed

lemma findTenant_eq: "findTenant s c = Some t \<Longrightarrow> t = c"
  by (auto simp: findTenant_def find_Some_iff)

lemma findProperty_mem: "findProperty s i = Some p \<Longrightarrow> p \<in> set (properties s) \<and> p_id p = i"
  by (auto simp: findProperty_def find_Some_iff)

text \<open>What a committed transaction has written, table by table.\<close>

lemma leaseTransaction_commit:
  assumes "leaseTransaction s clk i a st = Some s'"
  shows "\<exists>prop e.
           findProperty s (propertyId a) = Some prop
         \<and> setFullYear (nowEndBase clk) (getFullYear (nowEndYear clk) + 1) = Some e
         \<and> findTenant s (tenantCognitoId a) = Some (tenantCognitoId a)
         \<and> leases s' = leases s @ [\<lparr> l_id = nextLeaseId s, startDate = nowStart clk, endDate = e,
                                     rent = pricePerMonth prop, deposit = securityDeposit prop,
                                     l_propertyId = propertyId a,
                                     l_tenantCognitoId = tenantCognitoId a \<rparr>]
         \<and> nextLeaseId s' = nextLeaseId s + 1
         \<and> nextApplicationId s' = nextApplicationId s
         \<and> tenantIds s' = tenantIds s
         \<and> properties s' =
              map (\<lambda>p. if p_id p = propertyId a
                        then p\<lparr> tenants := List.insert (tenantCognitoId a) (tenants p) \<rparr> else p)
                  (properties s)
         \<and> applications s' =
              map (\<lambda>b. if a_id b = i then b\<lparr> status := st, leaseId := Some (nextLeaseId s) \<rparr>
                        else if propertyId b = propertyId a \<and> status b = ''Pending''
                        then b\<lparr> status := ''Denied'' \<rparr> else b)
                  (applications s)"
proof -
  obtain pr where p: "findProperty s (propertyId a) = Some pr"
    using assms by (auto simp: leaseTransaction_def split: option.splits)
  obtain e where e: "setFullYear (nowEndBase clk) (getFullYear (nowEndYear clk) + 1) = Some e"
    using assms p by (auto simp: leaseTransaction_def split: option.splits)
  obtain t where t: "findTenant s (tenantCognitoId a) = Some t"
    using assms p e by (auto simp: leaseTransaction_def split: option.splits)
  have t': "t = tenantCognitoId a" using findTenant_eq[OF t] .
  have f: "(\<lambda>b. if propertyId b = propertyId a \<and> a_id b \<noteq> i \<and> status b = ''Pending''
                 then b\<lparr> status := ''Denied'' \<rparr> else b) \<circ>
           (\<lambda>b. if a_id b = i then b\<lparr> status := st, leaseId := Some (nextLeaseId s) \<rparr> else b)
         = (\<lambda>b. if a_id b = i then b\<lparr> status := st, leaseId := Some (nextLeaseId s) \<rparr>
                else if propertyId b = propertyId a \<and> status b = ''Pending''
                then b\<lparr> status := ''Denied'' \<rparr> else b)"
    by (rule ext) simp
  have "leases s' = leases s @ [\<lparr> l_id = nextLeaseId s, startDate = nowStart clk, endDate = e,
                                     rent = pricePerMonth pr, deposit = securityDeposit pr,
                                     l_propertyId = propertyId a,
                                     l_tenantCognitoId = tenantCognitoId a \<rparr>]"
    "nextLeaseId s' = nextLeaseId s + 1" "nextApplicationId s' = nextApplicationId s"
    "tenantIds s' = tenantIds s"
    "properties s' =
              map (\<lambda>p. if p_id p = propertyId a
                        then p\<lparr> tenants := List.insert (tenantCognitoId a) (tenants p) \<rparr> else p)
                  (properties s)"
    using assms p e t t' by (auto simp: leaseTransaction_def Let_def)
  moreover have "applications s' =
              map (\<lambda>b. if a_id b = i then b\<lparr> status := st, leaseId := Some (nextLeaseId s) \<rparr>
                        else if propertyId b = propertyId a \<and> status b = ''Pending''
                        then b\<lparr> status := ''Denied'' \<rparr> else b)
                  (applications s)"
    using assms p e t t' by (auto simp: leaseTransaction_def Let_def f)
  ultimately show ?thesis using p e t t' by simp
qed

lemma find_append_None:
  "find P xs = None \<Longrightarrow> find P (xs @ ys) = find P ys"
  by (induction xs) (auto split: if_splits)

lemma mapped_row:
  assumes "b \<in> set (map f xs)"
  obtains x where "x \<in> set xs" "b = f x"
  using assms by auto

lemma approve_success:
  assumes "updateApplicationStatus s clk i (Some ''Approved'') = (s', Inr r)"
  shows "\<exists>a. findApplication s i = Some a \<and> applicationLease s a = None
           \<and> activeLease s a (nowCheck clk) = None
           \<and> leaseTransaction s clk i a ''Approved'' = Some s'"
  using assms unfolding updateApplicationStatus_def validStatuses_def
  by (auto split: option.splits if_splits)

lemma approval_effects_of_success:
  assumes "findApplication s i = Some a" "status a = ''Pending''"
      and "updateApplicationStatus s clk i (Some ''Approved'') = (s', Inr r)"
  shows "\<exists>l. leases s' = leases s @ [l] \<and> l_id l = nextLeaseId s
           \<and> l_propertyId l = propertyId a \<and> l_tenantCognitoId l = tenantCognitoId a
           \<and> length (applications s') = length (applications s)
           \<and> (\<forall>k < length (applications s).
                 applications s' ! k =
                   (let b = applications s ! k
                    in if a_id b = i then b\<lparr> status := ''Approved'', leaseId := Some (l_id l) \<rparr>
                       else if propertyId b = propertyId a \<and> status b = ''Pending''
                       then b\<lparr> status := ''Denied'' \<rparr>
                       else b))
           \<and> length (properties s') = length (properties s)
           \<and> (\<forall>k < length (properties s).
                 properties s' ! k =
                   (let p = properties s ! k
                    in if p_id p = propertyId a
                       then p\<lparr> tenants := List.insert (tenantCognitoId a) (tenants p) \<rparr>
                       else p))
           \<and> (\<exists>p\<in>set (properties s'). p_id p = propertyId a \<and> tenantCognitoId a \<in> set (tenants p))
           \<and> ((\<forall>m\<in>set (leases s). l_id m \<noteq> nextLeaseId s) \<longrightarrow>
                (\<forall>b\<in>set (applications s'). a_id b = i \<longrightarrow> applicationLease s' b = Some l))"
proof -
  have tx: "leaseTransaction s clk i a ''Approved'' = Some s'"
    using approve_success[OF assms(3)] assms(1) by auto
  obtain pr e where c:
    "findProperty s (propertyId a) = Some pr"
    "leases s' = leases s @ [\<lparr> l_id = nextLeaseId s, startDate = nowStart clk, endDate = e,
                                     rent = pricePerMonth pr, deposit = securityDeposit pr,
                                     l_propertyId = propertyId a,
                                     l_tenantCognitoId = tenantCognitoId a \<rparr>]"
    "properties s' =
              map (\<lambda>p. if p_id p = propertyId a
                        then p\<lparr> tenants := List.insert (tenantCognitoId a) (tenants p) \<rparr> else p)
                  (properties s)"
    "applications s' =
              map (\<lambda>b. if a_id b = i then b\<lparr> status := ''Approved'', leaseId := Some (nextLeaseId s) \<rparr>
                        else if propertyId b = propertyId a \<and> status b = ''Pending''
                        then b\<lparr> status := ''Denied'' \<rparr> else b)
                  (applications s)"
    using leaseTransaction_commit[OF tx] by blast
  let ?l = "\<lparr> l_id = nextLeaseId s, startDate = nowStart clk, endDate = e,
              rent = pricePerMonth pr, deposit = securityDeposit pr,
              l_propertyId = propertyId a, l_tenantCognitoId = tenantCognitoId a \<rparr>"
  have p1: "\<exists>p\<in>set (properties s'). p_id p = propertyId a \<and> tenantCognitoId a \<in> set (tenants p)"
  proof -
    have "pr \<in> set (properties s)" "p_id pr = propertyId a"
      using findProperty_mem[OF c(1)] by auto
    then have "pr\<lparr> tenants := List.insert (tenantCognitoId a) (tenants pr) \<rparr> \<in> set (properties s')"
      unfolding c(3) by force
    then show ?thesis using \<open>p_id pr = propertyId a\<close>
      by (intro bexI[where x="pr\<lparr> tenants := List.insert (tenantCognitoId a) (tenants pr) \<rparr>"]) simp_all
  qed
  have p2: "\<forall>b\<in>set (applications s'). a_id b = i \<longrightarrow> applicationLease s' b = Some ?l"
    if fresh: "\<forall>m\<in>set (leases s). l_id m \<noteq> nextLeaseId s"
  proof (intro ballI impI)
    fix b assume b: "b \<in> set (applications s')" "a_id b = i"
    obtain x where x: "x \<in> set (applications s)"
      "b = (if a_id x = i then x\<lparr> status := ''Approved'', leaseId := Some (nextLeaseId s) \<rparr>
            else if propertyId x = propertyId a \<and> status x = ''Pending''
            then x\<lparr> status := ''Denied'' \<rparr> else x)"
      using b(1) unfolding c(4) by (rule mapped_row)
    have "a_id x = i" using x(2) b(2) by (simp split: if_splits)
    then have "leaseId b = Some (nextLeaseId s)" using x(2) by simp
    moreover have "find (\<lambda>l. l_id l = nextLeaseId s) (leases s) = None"
      using fresh by (simp add: find_None_iff)
    then have "findLease s' (nextLeaseId s) = Some ?l"
      unfolding findLease_def c(2) by (simp add: find_append_None)
    ultimately show "applicationLease s' b = Some ?l" by (simp add: applicationLease_def)
  qed
  have "leases s' = leases s @ [?l] \<and> l_id ?l = nextLeaseId s
           \<and> l_propertyId ?l = propertyId a \<and> l_tenantCognitoId ?l = tenantCognitoId a
           \<and> length (applications s') = length (applications s)
           \<and> (\<forall>k < length (applications s).
                 applications s' ! k =
                   (let b = applications s ! k
                    in if a_id b = i then b\<lparr> status := ''Approved'', leaseId := Some (l_id ?l) \<rparr>
                       else if propertyId b = propertyId a \<and> status b = ''Pending''
                       then b\<lparr> status := ''Denied'' \<rparr>
                       else b))
           \<and> length (properties s') = length (properties s)
           \<and> (\<forall>k < length (properties s).
                 properties s' ! k =
                   (let p = properties s ! k
                    in if p_id p = propertyId a
                       then p\<lparr> tenants := List.insert (tenantCognitoId a) (tenants p) \<rparr>
                       else p))"
    unfolding c(2,3,4) by (simp add: Let_def)
  then show ?thesis using p1 p2 by blast
qed

definition store4 :: store where
  "store4 = fst (updateApplicationStatus store3 (clockAt 1700000000000) 1 (Some ''Approved''))"

text \<open>
  The lease a successful approval writes: rent and deposit are the property's, the start
  is the second clock reading, and the end is the third reading with its year set to the
  year of the fourth reading plus one.
\<close>

lemma approval_lease_terms:
  assumes "findApplication s i = Some a"
      and "updateApplicationStatus s clk i (Some ''Approved'') = (s', Inr r)"
  shows "\<exists>pr l. findProperty s (propertyId a) = Some pr \<and> leases s' = leases s @ [l]
           \<and> rent l = pricePerMonth pr \<and> deposit l = securityDeposit pr
           \<and> l_propertyId l = propertyId a \<and> l_tenantCognitoId l = tenantCognitoId a
           \<and> startDate l = nowStart clk
           \<and> setFullYear (nowEndBase clk) (getFullYear (nowEndYear clk) + 1) = Some (endDate l)"
proof -
  have tx: "leaseTransaction s clk i a ''Approved'' = Some s'"
    using approve_success[OF assms(2)] assms(1) by auto
  show ?thesis using leaseTransaction_commit[OF tx] by force
qed

text \<open>When the clock does not advance between the readings, the end is the start with its year advanced by one.\<close>

lemma approval_lease_terms_steady_clock:
  assumes "findApplication s i = Some a"
      and "updateApplicationStatus s (clockAt t) i (Some ''Approved'') = (s', Inr r)"
  shows "\<exists>pr l. findProperty s (propertyId a) = Some pr \<and> leases s' = leases s @ [l]
           \<and> rent l = pricePerMonth pr \<and> deposit l = securityDeposit pr
           \<and> startDate l = t \<and> setFullYear (startDate l) (getFullYear (startDate l) + 1) = Some (endDate l)"
  using approval_lease_terms[OF assms] by (auto simp: clockAt_def)

definition clockNewYear :: clock where
  "clockNewYear = \<lparr> nowCheck = 1704067199998, nowStart = 1704067199999,
                     nowEndBase = 1704067199999, nowEndYear = 1704067200000 \<rparr>"

text \<open>
  Claim C6 at a concrete run. The approval of application 1 of \<open>store1\<close> reads the clock
  at 2023-12-31T23:59:59.999Z for the start and for the date whose year is set, and one
  millisecond later, at 2024-01-01T00:00:00.000Z, for the year: the lease starts at
  2023-12-31T23:59:59.999Z and ends at 2025-12-31T23:59:59.999Z, two years later. One
  year after the start is 2024-12-31T23:59:59.999Z.
\<close>

theorem lease_term_across_new_year:
  "map (\<lambda>l. (startDate l, endDate l))
       (leases (fst (updateApplicationStatus store1 clockNewYear 1 (Some ''Approved''))))
     = [(1704067199999, 1767225599999)]
   \<and> setFullYear 1704067199999 (getFullYear 1704067199999 + 1) = Some 1735689599999"
  by code_simp

text \<open>
  The single-active-lease property of a store at the time \<open>now\<close>: no (tenant, property)
  pair has two leases with \<open>endDate \<ge> now\<close>.
\<close>

definition activeOn :: "store \<Rightarrow> int \<Rightarrow> int \<Rightarrow> string \<Rightarrow> lease list" where
  "activeOn s now pid tid =
     filter (\<lambda>l. l_propertyId l = pid \<and> l_tenantCognitoId l = tid \<and> now \<le> endDate l) (leases s)"

definition singleActiveLease :: "store \<Rightarrow> int \<Rightarrow> bool" where
  "singleActiveLease s now = (\<forall>pid tid. length (activeOn s now pid tid) \<le> 1)"

text \<open>
  A call of updateApplicationStatus whose guards and transaction see one store, as the
  function \<open>updateApplicationStatus\<close> has it, keeps the property
  (\<open>updateApplicationStatus_keeps_singleActiveLease\<close>); so does createApplication, which
  writes no lease.
\<close>

lemma length_filter_mono:
  "(\<And>x. P x \<Longrightarrow> Q x) \<Longrightarrow> length (filter P xs) \<le> length (filter Q xs)"
  by (induction xs) auto

lemma singleActiveLease_later:
  assumes "singleActiveLease s now" "now \<le> now'"
  shows "singleActiveLease s now'"
  unfolding singleActiveLease_def
proof (intro allI)
  fix pid tid
  have "length (activeOn s now' pid tid) \<le> length (activeOn s now pid tid)"
    unfolding activeOn_def using assms(2) by (intro length_filter_mono) auto
  then show "length (activeOn s now' pid tid) \<le> 1"
    using assms(1) unfolding singleActiveLease_def by (meson order_trans)
qed

lemma createApplication_leases: "leases (fst (createApplication s now q)) = leases s"
  unfolding createApplication_def by (auto split: option.splits prod.splits)

lemma singleActiveLease_leases:
  "leases s' = leases s \<Longrightarrow> singleActiveLease s' now = singleActiveLease s now"
  by (simp add: singleActiveLease_def activeOn_def)

lemma activeLease_None:
  "activeLease s a now = None \<longleftrightarrow> activeOn s now (propertyId a) (tenantCognitoId a) = []"
  by (auto simp: activeLease_def activeOn_def find_None_iff filter_empty_conv)

lemma updateApplicationStatus_cases:
  obtains (unchanged) "leases (fst (updateApplicationStatus s clk i body_status)) = leases s"
  | (issued) a s' r where "body_status = Some ''Approved''" "findApplication s i = Some a"
      "updateApplicationStatus s clk i body_status = (s', Inr r)"
proof (cases "\<exists>s' r. body_status = Some ''Approved'' \<and> updateApplicationStatus s clk i body_status = (s', Inr r)")
  case True
  then obtain s' r where h: "body_status = Some ''Approved''"
    "updateApplicationStatus s clk i body_status = (s', Inr r)" by blast
  then obtain a where "findApplication s i = Some a" using approve_success by blast
  then show ?thesis using h issued by blast
next
  case False
  then have "leases (fst (updateApplicationStatus s clk i body_status)) = leases s"
    unfolding updateApplicationStatus_def
    by (auto simp: Let_def split: option.splits if_splits)
  then show ?thesis using unchanged by blast
qed

lemma approval_keeps_singleActiveLease:
  assumes "singleActiveLease s now" "nowCheck clk = now"
      and "updateApplicationStatus s clk i (Some ''Approved'') = (s', Inr r)"
  shows "singleActiveLease s' now"
proof -
  obtain a where a: "findApplication s i = Some a" "activeLease s a (nowCheck clk) = None"
    using approve_success[OF assms(3)] by blast
  obtain pr l where l: "leases s' = leases s @ [l]" "l_propertyId l = propertyId a"
    "l_tenantCognitoId l = tenantCognitoId a"
    using approval_lease_terms[OF a(1) assms(3)] by blast
  have e: "activeOn s now (propertyId a) (tenantCognitoId a) = []"
    using a(2) assms(2) by (simp add: activeLease_None)
  show ?thesis unfolding singleActiveLease_def
  proof (intro allI)
    fix pid tid
    show "length (activeOn s' now pid tid) \<le> 1"
    proof (cases "pid = propertyId a \<and> tid = tenantCognitoId a")
      case True
      then have "activeOn s' now pid tid = filter (\<lambda>l. l_propertyId l = pid \<and> l_tenantCognitoId l = tid \<and> now \<le> endDate l) [l]"
        using e l(1) by (simp add: activeOn_def)
      then show ?thesis by simp
    next
      case False
      then have "activeOn s' now pid tid = activeOn s now pid tid"
        using l by (auto simp: activeOn_def)
      then show ?thesis using assms(1) by (simp add: singleActiveLease_def)
    qed
  qed
qed

lemma updateApplicationStatus_keeps_singleActiveLease:
  assumes "singleActiveLease s now" "nowCheck clk = now"
  shows "singleActiveLease (fst (updateApplicationStatus s clk i body_status)) now"
proof (cases rule: updateApplicationStatus_cases[of s clk i body_status])
  case unchanged
  then show ?thesis using assms(1) singleActiveLease_leases by blast
next
  case (issued a s' r)
  then show ?thesis using approval_keeps_singleActiveLease[OF assms] by simp
qed


lemma leaseTransaction_defined:
  assumes "findProperty s (propertyId a) \<noteq> None" "findTenant s (tenantCognitoId a) \<noteq> None"
      and "setFullYear (nowEndBase clk) (getFullYear (nowEndYear clk) + 1) \<noteq> None"
  shows "\<exists>s'. leaseTransaction s clk i a st = Some s'"
  using assms by (auto simp: leaseTransaction_def Let_def)

lemma approve_issues_one_lease:
  assumes "findApplication s i = Some a" "activeLease s a (nowCheck clk) = None"
      and "applicationLease s a = None"
      and "findProperty s (propertyId a) \<noteq> None" "findTenant s (tenantCognitoId a) \<noteq> None"
      and "setFullYear (nowEndBase clk) (getFullYear (nowEndYear clk) + 1) \<noteq> None"
  shows "\<exists>s' r l. updateApplicationStatus s clk i (Some ''Approved'') = (s', Inr r)
           \<and> leases s' = leases s @ [l]
           \<and> l_propertyId l = propertyId a \<and> l_tenantCognitoId l = tenantCognitoId a"
proof -
  obtain s' where s': "leaseTransaction s clk i a ''Approved'' = Some s'"
    using leaseTransaction_defined[OF assms(4,5,6)] by blast
  have u: "updateApplicationStatus s clk i (Some ''Approved'') = (s', Inr (readApplication s' i))"
    using assms(1,2,3) s' by (simp add: updateApplicationStatus_def validStatuses_def)
  show ?thesis using approval_lease_terms[OF assms(1) u] u by blast
qed





text \<open>
  The handler in its two phases. \<open>approvalGuards\<close> is everything before
  \<^verbatim>\<open>prisma.$transaction\<close>: the status check, the read of the application and the three
  guards, the last of which is the active-lease query; it answers the error, or the
  application row it has read. The transaction then runs on the store as it is when the
  transaction starts. updateApplicationStatus is the two phases on one store.
\<close>

definition approvalGuards :: "store \<Rightarrow> clock \<Rightarrow> int \<Rightarrow> string option \<Rightarrow> error + application" where
  "approvalGuards s clk i body_status =
     (case body_status of
        None \<Rightarrow> Inl InvalidStatus
      | Some st \<Rightarrow>
          if st = [] \<or> st \<notin> set validStatuses then Inl InvalidStatus
          else (case findApplication s i of
            None \<Rightarrow> Inl ApplicationNotFound
          | Some a \<Rightarrow>
              if status a = ''Approved'' \<and> st \<noteq> ''Approved'' then Inl CannotModifyApproved
              else if applicationLease s a \<noteq> None \<and> st = ''Approved'' then Inl LeaseAlreadyExists
              else if st = ''Approved'' then
                (case activeLease s a (nowCheck clk) of
                   Some existingLease \<Rightarrow> Inl ActiveLeaseExists
                 | None \<Rightarrow> Inr a)
              else Inr a))"

lemma updateApplicationStatus_phases:
  "updateApplicationStatus s clk i (Some ''Approved'') =
     (case approvalGuards s clk i (Some ''Approved'') of
        Inl e \<Rightarrow> (s, Inl e)
      | Inr a \<Rightarrow>
          (case leaseTransaction s clk i a ''Approved'' of
             None \<Rightarrow> (s, Inl ServerError)
           | Some s' \<Rightarrow> (s', Inr (readApplication s' i))))"
  by (auto simp: updateApplicationStatus_def approvalGuards_def validStatuses_def
           split: option.splits)






text \<open>
  Claim C4. Let \<open>a\<close> be a Pending application with id \<open>i\<close>. Its approval succeeds when \<open>a\<close>
  carries no lease, its tenant has no lease on its property that ends at or after the
  first clock reading, its property and tenant rows exist and the end date is a valid
  date. Whenever it succeeds, the new store has exactly one more lease \<open>l\<close>, on \<open>a\<close>'s
  tenant and property; the rows with id \<open>i\<close> are Approved with \<open>leaseId\<close> the id of \<open>l\<close>;
  every other application of the same property that was Pending is Denied and is
  otherwise as before; all other applications (those of the property that were Denied or
  Approved, and those of other properties) are as before; the tenant is added to the
  tenant list of the property and the other properties are as before. Where the lease
  ids in use are different from the next lease id, the application's lease is \<open>l\<close>. The
  whole change is one step: the handler either answers an error with the store as it was,
  or commits all of it.
\<close>

theorem approval_effects:
  assumes "findApplication s i = Some a" "status a = ''Pending''"
  shows "(applicationLease s a = None \<and> activeLease s a (nowCheck clk) = None
          \<and> findProperty s (propertyId a) \<noteq> None \<and> findTenant s (tenantCognitoId a) \<noteq> None
          \<and> setFullYear (nowEndBase clk) (getFullYear (nowEndYear clk) + 1) \<noteq> None \<longrightarrow>
            (\<exists>s' r. updateApplicationStatus s clk i (Some ''Approved'') = (s', Inr r)))
       \<and> (\<forall>s' r. updateApplicationStatus s clk i (Some ''Approved'') = (s', Inr r) \<longrightarrow>
            (\<exists>l. leases s' = leases s @ [l] \<and> l_id l = nextLeaseId s
               \<and> l_propertyId l = propertyId a \<and> l_tenantCognitoId l = tenantCognitoId a
               \<and> length (applications s') = length (applications s)
               \<and> (\<forall>k < length (applications s).
                     applications s' ! k =
                       (let b = applications s ! k
                        in if a_id b = i then b\<lparr> status := ''Approved'', leaseId := Some (l_id l) \<rparr>
                           else if propertyId b = propertyId a \<and> status b = ''Pending''
                           then b\<lparr> status := ''Denied'' \<rparr>
                           else b))
               \<and> length (properties s') = length (properties s)
               \<and> (\<forall>k < length (properties s).
                     properties s' ! k =
                       (let p = properties s ! k
                        in if p_id p = propertyId a
                           then p\<lparr> tenants := List.insert (tenantCognitoId a) (tenants p) \<rparr>
                           else p))
               \<and> (\<exists>p\<in>set (properties s'). p_id p = propertyId a \<and> tenantCognitoId a \<in> set (tenants p))
               \<and> ((\<forall>m\<in>set (leases s). l_id m \<noteq> nextLeaseId s) \<longrightarrow>
                    (\<forall>b\<in>set (applications s'). a_id b = i \<longrightarrow> applicationLease s' b = Some l))))"
proof (intro conjI impI allI)
  assume "applicationLease s a = None \<and> activeLease s a (nowCheck clk) = None
          \<and> findProperty s (propertyId a) \<noteq> None \<and> findTenant s (tenantCognitoId a) \<noteq> None
          \<and> setFullYear (nowEndBase clk) (getFullYear (nowEndYear clk) + 1) \<noteq> None"
  then show "\<exists>s' r. updateApplicationStatus s clk i (Some ''Approved'') = (s', Inr r)"
    using approve_issues_one_lease[OF assms(1), of clk] by blast
next
  fix s' r
  assume "updateApplicationStatus s clk i (Some ''Approved'') = (s', Inr r)"
  then show "\<exists>l. leases s' = leases s @ [l] \<and> l_id l = nextLeaseId s
               \<and> l_propertyId l = propertyId a \<and> l_tenantCognitoId l = tenantCognitoId a
               \<and> length (applications s') = length (applications s)
               \<and> (\<forall>k < length (applications s).
                     applications s' ! k =
                       (let b = applications s ! k
                        in if a_id b = i then b\<lparr> status := ''Approved'', leaseId := Some (l_id l) \<rparr>
                           else if propertyId b = propertyId a \<and> status b = ''Pending''
                           then b\<lparr> status := ''Denied'' \<rparr>
                           else b))
               \<and> length (properties s') = length (properties s)
               \<and> (\<forall>k < length (properties s).
                     properties s' ! k =
                       (let p = properties s ! k
                        in if p_id p = propertyId a
                           then p\<lparr> tenants := List.insert (tenantCognitoId a) (tenants p) \<rparr>
                           else p))
               \<and> (\<exists>p\<in>set (properties s'). p_id p = propertyId a \<and> tenantCognitoId a \<in> set (tenants p))
               \<and> ((\<forall>m\<in>set (leases s). l_id m \<noteq> nextLeaseId s) \<longrightarrow>
                    (\<forall>b\<in>set (applications s'). a_id b = i \<longrightarrow> applicationLease s' b = Some l))"
    by (rule approval_effects_of_success[OF assms])
qed

theorem approval_effects_witness:
  "findApplication store3 1 = Some (applications store3 ! 0)
   \<and> status (applications store3 ! 0) = ''Pending''
   \<and> updateApplicationStatus store3 (clockAt 1700000000000) 1 (Some ''Approved'')
       = (store4, Inr (readApplication store4 1))
   \<and> map status (applications store3) = [''Pending'', ''Pending'']
   \<and> map status (applications store4) = [''Approved'', ''Denied'']
   \<and> map leaseId (applications store4) = [Some 1, None]
   \<and> map tenants (properties store4) = [[''T1'']]
   \<and> (\<exists>l. leases store4 = leases store3 @ [l] \<and> l_id l = nextLeaseId store3
           \<and> l_propertyId l = 1 \<and> l_tenantCognitoId l = ''T1''
           \<and> length (applications store4) = length (applications store3)
           \<and> length (properties store4) = length (properties store3))"
proof -
  have a: "findApplication store3 1 = Some (applications store3 ! 0)" by code_simp
  have b: "status (applications store3 ! 0) = ''Pending''" by code_simp
  have c: "updateApplicationStatus store3 (clockAt 1700000000000) 1 (Some ''Approved'')
             = (store4, Inr (readApplication store4 1))" by code_simp
  have d: "propertyId (applications store3 ! 0) = 1" "tenantCognitoId (applications store3 ! 0) = ''T1''"
    by code_simp+
  have e: "map status (applications store3) = [''Pending'', ''Pending'']"
    "map status (applications store4) = [''Approved'', ''Denied'']"
    "map leaseId (applications store4) = [Some 1, None]"
    "map tenants (properties store4) = [[''T1'']]" by code_simp+
  have "\<exists>l. leases store4 = leases store3 @ [l] \<and> l_id l = nextLeaseId store3
           \<and> l_propertyId l = 1 \<and> l_tenantCognitoId l = ''T1''
           \<and> length (applications store4) = length (applications store3)
           \<and> length (properties store4) = length (properties store3)"
    using approval_effects[OF a b, of "clockAt 1700000000000"] c unfolding d by blast
  then show ?thesis using a b c e by blast
qed

end
